theory Spec2Isabelle
  imports Complex_Main "HOL-Library.Multiset"
begin

section \<open>Data model of \<open>ol_map_selectors.js\<close>\<close>

text \<open>
  Layer ids are JavaScript values. The code tests them with \<open>===\<close> and with
  truthiness (\<open>||\<close>, \<open>!\<close>), so the model keeps strings, numbers and booleans apart
  and says which of them are falsy (\<open>''\<close>, \<open>0\<close>, \<open>false\<close>).
\<close>

datatype ident = IdStr string | IdNum int | IdBool bool

fun truthy :: "ident \<Rightarrow> bool" where
  "truthy (IdStr s) = (s \<noteq> [])"
| "truthy (IdNum n) = (n \<noteq> 0)"
| "truthy (IdBool b) = b"

text \<open>
  One entry of the array built by \<open>getLayersIds\<close>: \<open>layer.get('id') || []\<close> is the
  tag itself when the tag is truthy and a freshly allocated empty array otherwise.
  A fresh array is truthy and is \<open>===\<close> to no id.
\<close>

datatype slot = Tag ident | FreshArray

fun slot_truthy :: "slot \<Rightarrow> bool" where
  "slot_truthy (Tag i) = truthy i"
| "slot_truthy FreshArray = True"

text \<open>
  The type tag of a declarative layer. \<open>LAYER_TYPE\<close> is imported from
  \<open>../shared/layers/layer\<close>; the \<open>switch\<close> compares the tag with its three members,
  and \<open>OTHER\<close> stands for every tag that is none of them.
\<close>

datatype layer_type = TILE | VECTOR | GEOHASH_GRID | OTHER string

type_synonym style_descriptor = string
type_synonym ol_style = string
type_synonym coord = "rat \<times> rat"

record layer =
  layer_id :: ident
  layer_type :: layer_type
  layer_visible :: bool
  layer_temporary :: bool
  layer_style :: style_descriptor
  layer_source :: string

text \<open>
  An OpenLayers layer object. \<open>ol_id\<close> is the property \<open>'id'\<close> of the object:
  \<open>None\<close> until \<open>set('id', _)\<close> has run (\<open>get('id')\<close> is then \<open>undefined\<close>).
  Feature parsing (\<open>readFeatures\<close>) and tile loading belong to the engine and are
  kept as the opaque source payload.
\<close>

datatype ol_kind = OlTile | OlVector | OlHeatmap

record ol_layer =
  ol_kind :: ol_kind
  ol_source :: string
  ol_visible :: bool
  ol_style :: "ol_style option"
  ol_id :: "ident option"

text \<open>
  \<open>ol.layer.Tile\<close> has no \<open>setStyle\<close>; \<open>ol.layer.Vector\<close> has one and
  \<open>ol.layer.Heatmap\<close> inherits it.
\<close>

fun exposes_setStyle :: "ol_kind \<Rightarrow> bool" where
  "exposes_setStyle OlTile = False"
| "exposes_setStyle OlVector = True"
| "exposes_setStyle OlHeatmap = True"

record ol_view =
  center :: coord
  zoom :: rat

text \<open>Calls into the engine's view and into the style resolver, in the order made.\<close>

datatype call = SetZoom rat | SetCenter coord | GetOlLayerStyle style_descriptor bool

text \<open>
  The state the selectors work on: the JavaScript heap of layer objects (a reference
  is an index into \<open>objs\<close>), the ordered layer collection of the singleton \<open>OL_MAP\<close>
  (a list of references, so that one object can occur twice), its view, and the
  trace of the calls above.
\<close>

record ol_state =
  objs :: "ol_layer list"
  layers :: "nat list"
  view :: ol_view
  trace :: "call list"

datatype js_zoom = ZoomAbsent | ZoomNumber rat | ZoomNotANumber

record map_constants =
  mc_center :: "coord option"
  mc_zoom :: js_zoom

text \<open>
  What the file imports and does not define: the two directions of
  \<open>ol.proj.transform\<close> between \<open>WEBMERCATOR\<close> and \<open>WGS_84\<close>, and the style resolver
  \<open>getOlLayerStyle\<close>. They are parameters of the model.
\<close>

record externals =
  toLonLat :: "coord \<Rightarrow> coord"
  fromLonLat :: "coord \<Rightarrow> coord"
  getOlLayerStyle :: "style_descriptor \<Rightarrow> bool \<Rightarrow> ol_style"

text \<open>
  What the code and the engine throw: the \<open>Error\<close> of \<open>createCorrespondingOLLayer\<close>
  (the specification's UnsupportedLayerType), a \<open>TypeError\<close> from reading a property of
  \<open>undefined\<close>, and the \<open>AssertionError\<close> of the map's layer collection, which
  refuses an object it already holds.
\<close>

datatype error = Cannot_create_corresponding_OL_layer | TypeError | AssertionError

section \<open>Arrays and the layer collection\<close>

text \<open>Reading a JavaScript array: \<open>undefined\<close> outside the array.\<close>

definition nth_opt :: "'a list \<Rightarrow> nat \<Rightarrow> 'a option" where
  "nth_opt xs i = (if i < length xs then Some (xs ! i) else None)"

text \<open>\<open>Array.prototype.findIndex\<close>: the first index whose element passes, else \<open>-1\<close>.\<close>

fun findIndex :: "('a \<Rightarrow> bool) \<Rightarrow> 'a list \<Rightarrow> int" where
  "findIndex P [] = - 1"
| "findIndex P (x # xs) =
     (if P x then 0 else (let r = findIndex P xs in if r < 0 then - 1 else r + 1))"

text \<open>
  \<open>ol.Collection.removeAt(index)\<close> removes the element at the index and yields it. At
  an index the collection does not have, nothing is removed and the element is
  \<open>undefined\<close> (\<open>None\<close>); on the layer collection of a map the call then throws a
  \<open>TypeError\<close>, because the map's listener reads a property of the removed element.
  The two callers below turn \<open>None\<close> into that error.
\<close>

definition removeAt :: "'a list \<Rightarrow> nat \<Rightarrow> 'a option \<times> 'a list" where
  "removeAt xs idx =
     (if idx < length xs then (Some (xs ! idx), take idx xs @ drop (Suc idx) xs)
      else (None, xs))"

text \<open>
  \<open>ol.Collection.insertAt(index, elem)\<close> is \<open>splice(index, 0, elem)\<close> on the
  underlying array: a negative index counts from the end and every index is clamped
  to the array.
\<close>

definition insertAt :: "'a list \<Rightarrow> int \<Rightarrow> 'a \<Rightarrow> 'a list" where
  "insertAt xs index elem =
     (let n = int (length xs);
          p = nat (if index < 0 then max 0 (n + index) else min index n)
      in take p xs @ elem # drop p xs)"

section \<open>Layer-specific logic\<close>

definition alloc :: "ol_state \<Rightarrow> ol_layer \<Rightarrow> ol_state \<times> nat" where
  "alloc s obj = (s\<lparr>objs := objs s @ [obj]\<rparr>, length (objs s))"

definition convertTmsLayersToOl :: "ol_state \<Rightarrow> layer \<Rightarrow> ol_state \<times> nat" where
  "convertTmsLayersToOl s layer =
     alloc s \<lparr>ol_kind = OlTile, ol_source = layer_source layer,
              ol_visible = layer_visible layer, ol_style = None, ol_id = None\<rparr>"

definition generatePlaceHolderLayerForGeohashGrid :: "ol_state \<Rightarrow> layer \<Rightarrow> ol_state \<times> nat" where
  "generatePlaceHolderLayerForGeohashGrid s layer =
     alloc s \<lparr>ol_kind = OlHeatmap, ol_source = layer_source layer,
              ol_visible = layer_visible layer, ol_style = None, ol_id = None\<rparr>"

definition convertVectorLayersToOl :: "externals \<Rightarrow> ol_state \<Rightarrow> layer \<Rightarrow> ol_state \<times> nat" where
  "convertVectorLayersToOl X s layer =
     (let style = layer_style layer;
          applied = getOlLayerStyle X style (layer_temporary layer);
          s1 = s\<lparr>trace := trace s @ [GetOlLayerStyle style (layer_temporary layer)]\<rparr>
      in alloc s1 \<lparr>ol_kind = OlVector, ol_source = layer_source layer,
                   ol_visible = layer_visible layer, ol_style = Some applied, ol_id = None\<rparr>)"

text \<open>\<open>olLayer.set('id', v)\<close> on the object behind a reference.\<close>

definition set_id :: "nat \<Rightarrow> ident \<Rightarrow> ol_state \<Rightarrow> ol_state" where
  "set_id r v s = s\<lparr>objs := (objs s)[r := (objs s ! r)\<lparr>ol_id := Some v\<rparr>]\<rparr>"

definition createCorrespondingOLLayer ::
  "externals \<Rightarrow> ol_state \<Rightarrow> layer \<Rightarrow> error + (ol_state \<times> nat)" where
  "createCorrespondingOLLayer X s layer =
     (case (case layer_type layer of
              TILE \<Rightarrow> Inr (convertTmsLayersToOl s layer)
            | VECTOR \<Rightarrow> Inr (convertVectorLayersToOl X s layer)
            | GEOHASH_GRID \<Rightarrow> Inr (generatePlaceHolderLayerForGeohashGrid s layer)
            | OTHER t \<Rightarrow> Inl Cannot_create_corresponding_OL_layer) of
        Inl e \<Rightarrow> Inl e
      | Inr (s1, olLayer) \<Rightarrow> Inr (set_id olLayer (layer_id layer) s1, olLayer))"

section \<open>OpenLayers helper functions\<close>

definition get_id :: "ol_state \<Rightarrow> nat \<Rightarrow> ident option" where
  "get_id s r = ol_id (objs s ! r)"

definition getLayersIds :: "ol_state \<Rightarrow> nat list \<Rightarrow> slot list" where
  "getLayersIds s mapLayers =
     map (\<lambda>r. case get_id s r of
                 Some i \<Rightarrow> if truthy i then Tag i else FreshArray
               | None \<Rightarrow> FreshArray) mapLayers"

text \<open>
  \<open>newLayerOrder.some((newOrderId, idx) => ...)\<close> visits the indices of
  \<open>newLayerOrder\<close> in ascending order and stops at the first one whose callback
  returns true, that is where \<open>oldLayerOrder[idx] !== newOrderId\<close>.
\<close>

definition firstMismatch :: "slot list \<Rightarrow> ident list \<Rightarrow> nat option" where
  "firstMismatch oldLayerOrder newLayerOrder =
     find (\<lambda>idx. nth_opt oldLayerOrder idx \<noteq> Some (Tag (newLayerOrder ! idx)))
       [0..<length newLayerOrder]"

text \<open>
  The body of the callback at a mismatch, up to the recursive call: one relocation.
  At an index the collection does not have, \<open>removeAt\<close> ends in a \<open>TypeError\<close>.
\<close>

definition relocate :: "ol_state \<Rightarrow> slot list \<Rightarrow> ident list \<Rightarrow> nat \<Rightarrow> error + ol_state" where
  "relocate s oldLayerOrder newLayerOrder idx =
     (let (layerToMove, rest) = removeAt (layers s) idx;
          newIdx = findIndex (\<lambda>i. Some (Tag i) = nth_opt oldLayerOrder idx) newLayerOrder
      in case layerToMove of
           None \<Rightarrow> Inl TypeError
         | Some r \<Rightarrow> Inr (s\<lparr>layers := insertAt rest newIdx r\<rparr>))"

text \<open>
  \<open>updateMapLayerOrder\<close> calls itself after every relocation and has no bound of its
  own. The first argument of the model is the number of relocations it may still
  make: \<open>None\<close> says that this number did not suffice.
\<close>

fun updateMapLayerOrder ::
  "nat \<Rightarrow> ol_state \<Rightarrow> slot list \<Rightarrow> ident list \<Rightarrow> (error + ol_state) option" where
  "updateMapLayerOrder fuel s oldLayerOrder newLayerOrder =
     (case firstMismatch oldLayerOrder newLayerOrder of
        None \<Rightarrow> Some (Inr s)
      | Some idx \<Rightarrow>
          (case fuel of
             0 \<Rightarrow> None
           | Suc fuel' \<Rightarrow>
               (case relocate s oldLayerOrder newLayerOrder idx of
                  Inl e \<Rightarrow> Some (Inl e)
                | Inr s' \<Rightarrow>
                    updateMapLayerOrder fuel' s' (getLayersIds s' (layers s')) newLayerOrder)))"

declare updateMapLayerOrder.simps [simp del]

text \<open>
  \<open>currentLayersIds.find(layerId => layerId === newLayer.get('id'))\<close> returns the
  entry found, and \<open>!\<close> tests its truthiness. \<open>map.addLayer\<close> pushes the object on the
  map's layer collection; that collection holds each object at most once and throws
  an \<open>AssertionError\<close> when given an object it already holds.
\<close>

definition addLayer :: "ol_state \<Rightarrow> nat \<Rightarrow> error + ol_state" where
  "addLayer s newLayer =
     (if newLayer \<in> set (layers s) then Inl AssertionError
      else Inr (s\<lparr>layers := layers s @ [newLayer]\<rparr>))"

definition addLayers :: "ol_state \<Rightarrow> nat \<Rightarrow> slot list \<Rightarrow> error + ol_state" where
  "addLayers s newLayer currentLayersIds =
     (if \<not> (case find (\<lambda>layerId. case get_id s newLayer of
                                    Some i \<Rightarrow> layerId = Tag i
                                  | None \<Rightarrow> False) currentLayersIds of
              None \<Rightarrow> False
            | Some layerId \<Rightarrow> slot_truthy layerId)
      then addLayer s newLayer
      else Inr s)"

definition layersToRemove :: "ol_state \<Rightarrow> ident list \<Rightarrow> nat list" where
  "layersToRemove s updatedLayersIds =
     filter (\<lambda>idx. \<not> (case find (\<lambda>i. Some i = get_id s (layers s ! idx)) updatedLayersIds of
                         None \<Rightarrow> False
                       | Some i \<Rightarrow> truthy i))
       [0..<length (layers s)]"

text \<open>
  \<open>layersToRemove.forEach(layerIdx => existingMapLayers.removeAt(layerIdx))\<close>: the
  positions collected beforehand are removed one after the other from the collection
  as it then is.
\<close>

fun removeEach :: "nat list \<Rightarrow> nat list \<Rightarrow> error + nat list" where
  "removeEach ls [] = Inr ls"
| "removeEach ls (layerIdx # rest) =
     (case removeAt ls layerIdx of
        (None, _) \<Rightarrow> Inl TypeError
      | (Some _, ls') \<Rightarrow> removeEach ls' rest)"

definition removeLayers :: "ol_state \<Rightarrow> ident list \<Rightarrow> error + ol_state" where
  "removeLayers s updatedLayersIds =
     (case removeEach (layers s) (layersToRemove s updatedLayersIds) of
        Inl e \<Rightarrow> Inl e
      | Inr ls \<Rightarrow> Inr (s\<lparr>layers := ls\<rparr>))"

definition setVisible :: "nat \<Rightarrow> bool \<Rightarrow> ol_state \<Rightarrow> ol_state" where
  "setVisible r v s = s\<lparr>objs := (objs s)[r := (objs s ! r)\<lparr>ol_visible := v\<rparr>]\<rparr>"

definition setStyle :: "nat \<Rightarrow> ol_style \<Rightarrow> ol_state \<Rightarrow> ol_state" where
  "setStyle r st s = s\<lparr>objs := (objs s)[r := (objs s ! r)\<lparr>ol_style := Some st\<rparr>]\<rparr>"

definition updateFillAndOutlineStyle :: "externals \<Rightarrow> ol_state \<Rightarrow> nat \<Rightarrow> layer \<Rightarrow> ol_state" where
  "updateFillAndOutlineStyle X s olLayer layer =
     (let style = layer_style layer;
          appliedStyle = getOlLayerStyle X style (layer_temporary layer);
          s1 = s\<lparr>trace := trace s @ [GetOlLayerStyle style (layer_temporary layer)]\<rparr>
      in if exposes_setStyle (ol_kind (objs s1 ! olLayer))
         then setStyle olLayer appliedStyle s1 else s1)"

section \<open>Selectors\<close>

text \<open>
  The result functions of the three selectors. \<open>createSelector\<close> (from \<open>reselect\<close>)
  only caches them: it runs a result function again when one of its inputs is a
  different reference, and otherwise returns the result it has. A pass of the model
  runs each result function once, in the order of their dependencies.
\<close>

definition setZoom :: "rat \<Rightarrow> ol_state \<Rightarrow> ol_state" where
  "setZoom z s = s\<lparr>view := (view s)\<lparr>zoom := z\<rparr>, trace := trace s @ [SetZoom z]\<rparr>"

definition setCenter :: "coord \<Rightarrow> ol_state \<Rightarrow> ol_state" where
  "setCenter c s = s\<lparr>view := (view s)\<lparr>center := c\<rparr>, trace := trace s @ [SetCenter c]\<rparr>"

definition syncOLMap :: "externals \<Rightarrow> ol_state \<Rightarrow> map_constants \<Rightarrow> ol_state" where
  "syncOLMap X olMap mapConstants =
     (let centerNow = center (view olMap);
          zoomNow = zoom (view olMap);
          centerInLonLat = toLonLat X centerNow;
          s1 = (case mc_zoom mapConstants of
                  ZoomNumber z \<Rightarrow> if z \<noteq> zoomNow then setZoom z olMap else olMap
                | _ \<Rightarrow> olMap)
      in case mc_center mapConstants of
           Some c \<Rightarrow> if c \<noteq> centerInLonLat then setCenter (fromLonLat X c) s1 else s1
         | None \<Rightarrow> s1)"

fun syncLayerInitialization ::
  "externals \<Rightarrow> ol_state \<Rightarrow> layer list \<Rightarrow> error + (ol_state \<times> (layer \<times> nat) list)" where
  "syncLayerInitialization X olMap [] = Inr (olMap, [])"
| "syncLayerInitialization X olMap (layer # layerList) =
     (case (case find (\<lambda>olLayer. get_id olMap olLayer = Some (layer_id layer)) (layers olMap) of
              Some olLayer \<Rightarrow> Inr (olMap, olLayer)
            | None \<Rightarrow> createCorrespondingOLLayer X olMap layer) of
        Inl e \<Rightarrow> Inl e
      | Inr (s1, olLayer) \<Rightarrow>
          (case syncLayerInitialization X s1 layerList of
             Inl e \<Rightarrow> Inl e
           | Inr (s2, tuples) \<Rightarrow> Inr (s2, (layer, olLayer) # tuples)))"

text \<open>\<open>Array.prototype.forEach\<close> with a callback that may throw: the first throw ends it.\<close>

fun forEach :: "('s \<Rightarrow> 'a \<Rightarrow> error + 's) \<Rightarrow> 's \<Rightarrow> 'a list \<Rightarrow> error + 's" where
  "forEach f s [] = Inr s"
| "forEach f s (x # xs) = (case f s x of Inl e \<Rightarrow> Inl e | Inr s' \<Rightarrow> forEach f s' xs)"

text \<open>The callback of \<open>layersWithOl.forEach\<close> in \<open>syncOLState\<close>: adds and updates.\<close>

definition addAndUpdate ::
  "externals \<Rightarrow> slot list \<Rightarrow> ol_state \<Rightarrow> layer \<times> nat \<Rightarrow> error + ol_state" where
  "addAndUpdate X layersIds s tuple =
     (let layer = fst tuple; olLayer = snd tuple in
      case addLayers s olLayer layersIds of
        Inl e \<Rightarrow> Inl e
      | Inr s1 \<Rightarrow>
          (let s2 = setVisible olLayer (layer_visible layer) s1
           in Inr (if layer_type layer = VECTOR
                   then updateFillAndOutlineStyle X s2 olLayer layer else s2)))"

definition syncOLState ::
  "externals \<Rightarrow> nat \<Rightarrow> ol_state \<Rightarrow> map_constants \<Rightarrow> layer list \<Rightarrow> (error + ol_state) option" where
  "syncOLState X fuel s mapConstants layerList =
     (let olMap0 = syncOLMap X s mapConstants in
      case syncLayerInitialization X olMap0 layerList of
        Inl e \<Rightarrow> Some (Inl e)
      | Inr (olMap, layersWithOl) \<Rightarrow>
          (let layersIds = getLayersIds olMap (layers olMap) in
           case forEach (addAndUpdate X layersIds) olMap layersWithOl of
             Inl e \<Rightarrow> Some (Inl e)
           | Inr s1 \<Rightarrow>
               (let newLayerIdsOrder = map (\<lambda>t. layer_id (fst t)) layersWithOl in
                case removeLayers s1 newLayerIdsOrder of
                  Inl e \<Rightarrow> Some (Inl e)
                | Inr s2 \<Rightarrow>
                    (let oldLayerIdsOrder = getLayersIds s2 (layers s2)
                     in updateMapLayerOrder fuel s2 oldLayerIdsOrder newLayerIdsOrder))))"


definition layer_ids :: "ol_state \<Rightarrow> ident option list" where
  "layer_ids s = map (get_id s) (layers s)"

text \<open>A reference of the collection must denote an object of the heap.\<close>

definition wf_state :: "ol_state \<Rightarrow> bool" where
  "wf_state s = (\<forall>r \<in> set (layers s). r < length (objs s))"

section \<open>The initial map and example inputs\<close>

text \<open>\<open>OL_MAP\<close>: no layers, the view at \<open>fromLonLat([0, 0])\<close> and zoom 0.\<close>

definition OL_MAP :: "externals \<Rightarrow> ol_state" where
  "OL_MAP X = \<lparr>objs = [], layers = [], view = \<lparr>center = fromLonLat X (0, 0), zoom = 0\<rparr>,
              trace = []\<rparr>"

definition example_externals :: externals where
  "example_externals =
     \<lparr>toLonLat = (\<lambda>c. (fst c / 2, snd c / 2)),
      fromLonLat = (\<lambda>c. (fst c * 2, snd c * 2)),
      getOlLayerStyle = (\<lambda>d t. if t then d @ ''/temporary'' else d)\<rparr>"

definition example_layer :: "ident \<Rightarrow> layer_type \<Rightarrow> layer" where
  "example_layer i t =
     \<lparr>layer_id = i, layer_type = t, layer_visible = True, layer_temporary = False,
      layer_style = ''red'', layer_source = ''payload''\<rparr>"

definition example_object :: "ident \<Rightarrow> ol_layer" where
  "example_object i =
     \<lparr>ol_kind = OlTile, ol_source = ''payload'', ol_visible = True, ol_style = None,
      ol_id = Some i\<rparr>"

text \<open>A map that holds one tile layer object per given id, in the given order.\<close>

definition example_map :: "ident list \<Rightarrow> ol_state" where
  "example_map is =
     \<lparr>objs = map example_object is, layers = [0..<length is],
      view = \<lparr>center = (0, 0), zoom = 0\<rparr>, trace = []\<rparr>"

definition example_constants :: map_constants where
  "example_constants = \<lparr>mc_center = Some (10, 20), mc_zoom = ZoomNumber 5\<rparr>"

section \<open>Notions used to state and prove the claims\<close>

text \<open>
  One relocation on a plain list: the element at \<open>i\<close> is taken out and put back
  at position \<open>t\<close> of what remains.
\<close>

definition move :: "nat \<Rightarrow> nat \<Rightarrow> 'a list \<Rightarrow> 'a list" where
  "move i t xs = (let rest = take i xs @ drop (Suc i) xs in take t rest @ xs ! i # drop t rest)"

text \<open>
  Which positions of the current order already hold the desired id, read as a
  binary number with the last position as the most significant bit.
\<close>

fun bitval :: "bool list \<Rightarrow> nat" where
  "bitval [] = 0"
| "bitval (b # bs) = (if b then 1 else 0) + 2 * bitval bs"

definition agree :: "'a list \<Rightarrow> 'a list \<Rightarrow> bool list" where
  "agree xs ys = map (\<lambda>p. fst p = snd p) (zip xs ys)"

text \<open>
  The potential of the current order against the desired one. Position 0 is left
  out: it holds the right id as soon as all the others do.
\<close>

definition potential :: "'a list \<Rightarrow> 'a list \<Rightarrow> nat" where
  "potential cur new = bitval (tl (agree cur new))"

section \<open>Frame lemmas\<close>

lemma upd_nth_field:
  "(\<And>x. g (f x) = g x) \<Longrightarrow> g (xs[r := f (xs ! r)] ! q) = g (xs ! q)"
  by (cases "r < length xs"; cases "q = r"; simp add: list_update_beyond)

lemma addLayers_frame:
  assumes "addLayers s r ids = Inr s1"
  shows "objs s1 = objs s \<and> trace s1 = trace s \<and> view s1 = view s"
  using assms by (auto simp: addLayers_def addLayer_def split: if_splits)

lemma setVisible_frame:
  "trace (setVisible r v s) = trace s" "layers (setVisible r v s) = layers s"
  "view (setVisible r v s) = view s" "length (objs (setVisible r v s)) = length (objs s)"
  by (simp_all add: setVisible_def)

lemma setVisible_fields:
  "ol_style (objs (setVisible r v s) ! q) = ol_style (objs s ! q)"
  "ol_id (objs (setVisible r v s) ! q) = ol_id (objs s ! q)"
  "ol_kind (objs (setVisible r v s) ! q) = ol_kind (objs s ! q)"
  by (simp_all add: setVisible_def upd_nth_field)

lemma updateFillAndOutlineStyle_frame:
  "trace (updateFillAndOutlineStyle X s r layer) =
     trace s @ [GetOlLayerStyle (layer_style layer) (layer_temporary layer)]"
  "layers (updateFillAndOutlineStyle X s r layer) = layers s"
  "view (updateFillAndOutlineStyle X s r layer) = view s"
  "length (objs (updateFillAndOutlineStyle X s r layer)) = length (objs s)"
  by (simp_all add: updateFillAndOutlineStyle_def setStyle_def Let_def)

lemma updateFillAndOutlineStyle_fields:
  "q \<noteq> r \<Longrightarrow> objs (updateFillAndOutlineStyle X s r layer) ! q = objs s ! q"
  "ol_id (objs (updateFillAndOutlineStyle X s r layer) ! q) = ol_id (objs s ! q)"
  "ol_visible (objs (updateFillAndOutlineStyle X s r layer) ! q) = ol_visible (objs s ! q)"
  by (simp_all add: updateFillAndOutlineStyle_def setStyle_def Let_def upd_nth_field)

section \<open>The layer converter\<close>

text \<open>
  C8. A layer whose type tag is none of TILE, VECTOR and GEOHASH_GRID makes
  \<open>createCorrespondingOLLayer\<close> throw (the error the specification calls
  UnsupportedLayerType). For each of the three tags it returns a reference to a newly
  constructed object, one that no earlier reference denotes, tagged with the id of the
  layer; the objects that existed, the collection and the view are as before.
\<close>

theorem createCorrespondingOLLayer_result:
  "(layer_type layer \<notin> {TILE, VECTOR, GEOHASH_GRID} \<longrightarrow>
      createCorrespondingOLLayer X s layer = Inl Cannot_create_corresponding_OL_layer) \<and>
   (layer_type layer \<in> {TILE, VECTOR, GEOHASH_GRID} \<longrightarrow>
      (\<exists>s'. createCorrespondingOLLayer X s layer = Inr (s', length (objs s)) \<and>
            length (objs s') = Suc (length (objs s)) \<and>
            take (length (objs s)) (objs s') = objs s \<and>
            ol_id (objs s' ! length (objs s)) = Some (layer_id layer) \<and>
            layers s' = layers s \<and> view s' = view s))"
  by (cases "layer_type layer")
     (simp_all add: createCorrespondingOLLayer_def convertTmsLayersToOl_def
        convertVectorLayersToOl_def generatePlaceHolderLayerForGeohashGrid_def
        alloc_def set_id_def Let_def)

theorem createCorrespondingOLLayer_result_witness:
  "createCorrespondingOLLayer example_externals (example_map [IdStr ''a''])
     (example_layer (IdStr ''b'') (OTHER ''WMS'')) = Inl Cannot_create_corresponding_OL_layer \<and>
   (\<exists>s'. createCorrespondingOLLayer example_externals (example_map [IdStr ''a''])
           (example_layer (IdStr ''b'') GEOHASH_GRID) = Inr (s', 1) \<and>
         ol_id (objs s' ! 1) = Some (IdStr ''b''))"
proof -
  have other: "layer_type (example_layer (IdStr ''b'') (OTHER ''WMS'')) \<notin> {TILE, VECTOR, GEOHASH_GRID}"
    by (simp add: example_layer_def)
  have known: "layer_type (example_layer (IdStr ''b'') GEOHASH_GRID) \<in> {TILE, VECTOR, GEOHASH_GRID}"
    by (simp add: example_layer_def)
  have len: "length (objs (example_map [IdStr ''a''])) = 1"
    by (simp add: example_map_def)
  from createCorrespondingOLLayer_result
         [of "example_layer (IdStr ''b'') (OTHER ''WMS'')" example_externals
             "example_map [IdStr ''a'']"] other
  have fails: "createCorrespondingOLLayer example_externals (example_map [IdStr ''a''])
       (example_layer (IdStr ''b'') (OTHER ''WMS'')) = Inl Cannot_create_corresponding_OL_layer"
    by blast
  from createCorrespondingOLLayer_result
         [of "example_layer (IdStr ''b'') GEOHASH_GRID" example_externals
             "example_map [IdStr ''a'']"] known
  obtain s' where
    "createCorrespondingOLLayer example_externals (example_map [IdStr ''a''])
       (example_layer (IdStr ''b'') GEOHASH_GRID) = Inr (s', length (objs (example_map [IdStr ''a''])))"
    "ol_id (objs s' ! length (objs (example_map [IdStr ''a'']))) =
       Some (layer_id (example_layer (IdStr ''b'') GEOHASH_GRID))"
    by blast
  then have "createCorrespondingOLLayer example_externals (example_map [IdStr ''a''])
       (example_layer (IdStr ''b'') GEOHASH_GRID) = Inr (s', 1) \<and>
       ol_id (objs s' ! 1) = Some (IdStr ''b'')"
    by (simp add: len example_layer_def)
  with fails show ?thesis by blast
qed

section \<open>View synchronisation\<close>

text \<open>
  C6. \<open>syncOLMap\<close> calls \<open>setZoom\<close> exactly when the desired zoom is a number that
  differs from the current zoom, and \<open>setCenter\<close> exactly when a desired center is
  present and differs from the current center expressed in longitude and latitude; it
  makes no other call, never touches the layers, and returns the map as it was when
  neither a center nor a numeric zoom is given.
\<close>

theorem syncOLMap_writes:
  "trace (syncOLMap X s mc) =
     trace s
     @ (case mc_zoom mc of
          ZoomNumber z \<Rightarrow> if z \<noteq> zoom (view s) then [SetZoom z] else []
        | _ \<Rightarrow> [])
     @ (case mc_center mc of
          Some c \<Rightarrow> if c \<noteq> toLonLat X (center (view s)) then [SetCenter (fromLonLat X c)] else []
        | None \<Rightarrow> []) \<and>
   zoom (view (syncOLMap X s mc)) =
     (case mc_zoom mc of
        ZoomNumber z \<Rightarrow> if z \<noteq> zoom (view s) then z else zoom (view s)
      | _ \<Rightarrow> zoom (view s)) \<and>
   center (view (syncOLMap X s mc)) =
     (case mc_center mc of
        Some c \<Rightarrow> if c \<noteq> toLonLat X (center (view s)) then fromLonLat X c else center (view s)
      | None \<Rightarrow> center (view s)) \<and>
   objs (syncOLMap X s mc) = objs s \<and> layers (syncOLMap X s mc) = layers s \<and>
   (mc_center mc = None \<and> (\<forall>z. mc_zoom mc \<noteq> ZoomNumber z) \<longrightarrow> syncOLMap X s mc = s)"
  by (cases "mc_zoom mc"; cases "mc_center mc")
     (simp_all add: syncOLMap_def setZoom_def setCenter_def Let_def)

theorem syncOLMap_writes_witness:
  "trace (syncOLMap example_externals (OL_MAP example_externals) example_constants) =
     [SetZoom 5, SetCenter (20, 40)] \<and>
   syncOLMap example_externals (OL_MAP example_externals)
     \<lparr>mc_center = None, mc_zoom = ZoomNotANumber\<rparr> = OL_MAP example_externals"
proof -
  have absent: "mc_center \<lparr>mc_center = None, mc_zoom = ZoomNotANumber\<rparr> = None \<and>
      (\<forall>z. mc_zoom \<lparr>mc_center = None, mc_zoom = ZoomNotANumber\<rparr> \<noteq> ZoomNumber z)"
    by simp
  from syncOLMap_writes [of example_externals "OL_MAP example_externals"
         "\<lparr>mc_center = None, mc_zoom = ZoomNotANumber\<rparr>"] absent
  have unchanged: "syncOLMap example_externals (OL_MAP example_externals)
      \<lparr>mc_center = None, mc_zoom = ZoomNotANumber\<rparr> = OL_MAP example_externals"
    by blast
  from syncOLMap_writes [of example_externals "OL_MAP example_externals" example_constants]
  have "trace (syncOLMap example_externals (OL_MAP example_externals) example_constants) =
     trace (OL_MAP example_externals)
     @ (case mc_zoom example_constants of
          ZoomNumber z \<Rightarrow> if z \<noteq> zoom (view (OL_MAP example_externals)) then [SetZoom z] else []
        | _ \<Rightarrow> [])
     @ (case mc_center example_constants of
          Some c \<Rightarrow> if c \<noteq> toLonLat example_externals (center (view (OL_MAP example_externals)))
                    then [SetCenter (fromLonLat example_externals c)] else []
        | None \<Rightarrow> [])"
    by blast
  then have "trace (syncOLMap example_externals (OL_MAP example_externals) example_constants) =
     [SetZoom 5, SetCenter (20, 40)]"
    by (simp add: OL_MAP_def example_constants_def example_externals_def)
  with unchanged show ?thesis by blast
qed

section \<open>The layer diff\<close>

lemma createCorrespondingOLLayer_Inr:
  assumes "createCorrespondingOLLayer X s layer = Inr (s', r)"
  shows "r = length (objs s) \<and> length (objs s') = Suc (length (objs s)) \<and>
    take (length (objs s)) (objs s') = objs s \<and> layers s' = layers s \<and> view s' = view s \<and>
    ol_id (objs s' ! r) = Some (layer_id layer)"
  using assms
  by (cases "layer_type layer")
     (auto simp: createCorrespondingOLLayer_def convertTmsLayersToOl_def
        convertVectorLayersToOl_def generatePlaceHolderLayerForGeohashGrid_def
        alloc_def set_id_def Let_def)

lemma get_id_extend:
  "take (length (objs s)) (objs s') = objs s \<Longrightarrow> r < length (objs s) \<Longrightarrow> get_id s' r = get_id s r"
  by (metis get_id_def nth_take)

lemma find_same_on:
  "(\<And>x. x \<in> set xs \<Longrightarrow> P x = Q x) \<Longrightarrow> find P xs = find Q xs"
  by (induction xs) simp_all

lemma syncLayerInitialization_Inr:
  "wf_state s \<Longrightarrow> syncLayerInitialization X s layerList = Inr (s', tuples) \<Longrightarrow>
   map fst tuples = layerList \<and> layers s' = layers s \<and> view s' = view s \<and>
   length (objs s) \<le> length (objs s') \<and> take (length (objs s)) (objs s') = objs s \<and>
   (\<forall>t \<in> set tuples.
      case find (\<lambda>olLayer. get_id s olLayer = Some (layer_id (fst t))) (layers s) of
        Some olLayer \<Rightarrow> snd t = olLayer
      | None \<Rightarrow> length (objs s) \<le> snd t \<and> snd t < length (objs s'))"
proof (induction layerList arbitrary: s s' tuples)
  case Nil
  then show ?case by simp
next
  case (Cons layer layerList)
  let ?found = "find (\<lambda>olLayer. get_id s olLayer = Some (layer_id layer)) (layers s)"
  from Cons.prems(2) obtain s1 olLayer rest where
    first: "(case ?found of Some olLayer \<Rightarrow> Inr (s, olLayer)
             | None \<Rightarrow> createCorrespondingOLLayer X s layer) = Inr (s1, olLayer)"
    and later: "syncLayerInitialization X s1 layerList = Inr (s', rest)"
    and tuples: "tuples = (layer, olLayer) # rest"
    by (auto split: sum.splits option.splits)
  have ext: "layers s1 = layers s \<and> view s1 = view s \<and> length (objs s) \<le> length (objs s1) \<and>
      take (length (objs s)) (objs s1) = objs s \<and>
      (case ?found of Some r \<Rightarrow> olLayer = r
       | None \<Rightarrow> length (objs s) \<le> olLayer \<and> olLayer < length (objs s1))"
  proof (cases ?found)
    case None
    with first have "createCorrespondingOLLayer X s layer = Inr (s1, olLayer)" by simp
    from createCorrespondingOLLayer_Inr [OF this] None show ?thesis by simp
  next
    case (Some r)
    with first show ?thesis by simp
  qed
  have wf1: "wf_state s1"
    using Cons.prems(1) ext by (auto simp: wf_state_def)
  note IH = Cons.IH [OF wf1 later]
  have same: "\<And>i. find (\<lambda>olLayer. get_id s1 olLayer = Some i) (layers s1) =
                 find (\<lambda>olLayer. get_id s olLayer = Some i) (layers s)"
  proof -
    fix i
    have "find (\<lambda>olLayer. get_id s1 olLayer = Some i) (layers s) =
          find (\<lambda>olLayer. get_id s olLayer = Some i) (layers s)"
    proof (intro find_same_on)
      fix x assume "x \<in> set (layers s)"
      then have "x < length (objs s)" using Cons.prems(1) by (simp add: wf_state_def)
      with ext have "get_id s1 x = get_id s x" by (intro get_id_extend) simp_all
      then show "(get_id s1 x = Some i) = (get_id s x = Some i)" by simp
    qed
    then show "find (\<lambda>olLayer. get_id s1 olLayer = Some i) (layers s1) =
                 find (\<lambda>olLayer. get_id s olLayer = Some i) (layers s)"
      using ext by simp
  qed
  have take: "take (length (objs s)) (objs s') = objs s"
  proof -
    have "take (length (objs s)) (objs s') =
          take (length (objs s)) (take (length (objs s1)) (objs s'))"
      using ext by (simp add: min_def)
    also have "\<dots> = objs s" using IH ext by simp
    finally show ?thesis .
  qed
  have rest: "\<forall>t \<in> set rest.
      case find (\<lambda>olLayer. get_id s olLayer = Some (layer_id (fst t))) (layers s) of
        Some olLayer \<Rightarrow> snd t = olLayer
      | None \<Rightarrow> length (objs s) \<le> snd t \<and> snd t < length (objs s')"
  proof
    fix t assume "t \<in> set rest"
    with IH have "case find (\<lambda>olLayer. get_id s1 olLayer = Some (layer_id (fst t))) (layers s1) of
        Some olLayer \<Rightarrow> snd t = olLayer
      | None \<Rightarrow> length (objs s1) \<le> snd t \<and> snd t < length (objs s')"
      by blast
    then have "case find (\<lambda>olLayer. get_id s olLayer = Some (layer_id (fst t))) (layers s) of
        Some olLayer \<Rightarrow> snd t = olLayer
      | None \<Rightarrow> length (objs s1) \<le> snd t \<and> snd t < length (objs s')"
      unfolding same .
    then show "case find (\<lambda>olLayer. get_id s olLayer = Some (layer_id (fst t))) (layers s) of
        Some olLayer \<Rightarrow> snd t = olLayer
      | None \<Rightarrow> length (objs s) \<le> snd t \<and> snd t < length (objs s')"
      using ext by (auto split: option.splits)
  qed
  have head: "case ?found of Some r \<Rightarrow> olLayer = r
       | None \<Rightarrow> length (objs s) \<le> olLayer \<and> olLayer < length (objs s')"
    using ext IH by (auto split: option.splits)
  have every: "\<forall>t \<in> set tuples.
      case find (\<lambda>olLayer. get_id s olLayer = Some (layer_id (fst t))) (layers s) of
        Some olLayer \<Rightarrow> snd t = olLayer
      | None \<Rightarrow> length (objs s) \<le> snd t \<and> snd t < length (objs s')"
    unfolding tuples using rest head by (simp split: option.splits)
  have "map fst tuples = layer # layerList" using IH by (simp add: tuples)
  moreover have "layers s' = layers s" "view s' = view s" "length (objs s) \<le> length (objs s')"
    using IH ext by simp_all
  ultimately show ?case using take every by blast
qed

text \<open>
  C7. When \<open>syncLayerInitialization\<close> returns, it returns one tuple per desired layer,
  in the order of the desired list. A layer whose id tags an object of the collection
  is paired with that object (the first one so tagged), not with a new one; any other
  layer is paired with an object constructed during the call. The collection and the
  objects that existed before are unchanged.
\<close>

theorem syncLayerInitialization_reuse:
  assumes "wf_state s"
    and "syncLayerInitialization X s layerList = Inr (s', tuples)"
  shows "map fst tuples = layerList \<and> layers s' = layers s \<and>
    take (length (objs s)) (objs s') = objs s \<and>
    (\<forall>t \<in> set tuples.
       case find (\<lambda>olLayer. get_id s olLayer = Some (layer_id (fst t))) (layers s) of
         Some olLayer \<Rightarrow> snd t = olLayer \<and> olLayer \<in> set (layers s)
       | None \<Rightarrow> length (objs s) \<le> snd t \<and> snd t < length (objs s') \<and>
                 snd t \<notin> set (layers s))"
proof -
  note r = syncLayerInitialization_Inr [OF assms]
  from r have a: "map fst tuples = layerList" "layers s' = layers s"
      "take (length (objs s)) (objs s') = objs s"
    by simp_all
  from r have b: "\<forall>t \<in> set tuples.
      case find (\<lambda>olLayer. get_id s olLayer = Some (layer_id (fst t))) (layers s) of
        Some olLayer \<Rightarrow> snd t = olLayer
      | None \<Rightarrow> length (objs s) \<le> snd t \<and> snd t < length (objs s')"
    by simp
  have "\<forall>t \<in> set tuples.
       case find (\<lambda>olLayer. get_id s olLayer = Some (layer_id (fst t))) (layers s) of
         Some olLayer \<Rightarrow> snd t = olLayer \<and> olLayer \<in> set (layers s)
       | None \<Rightarrow> length (objs s) \<le> snd t \<and> snd t < length (objs s') \<and>
                 snd t \<notin> set (layers s)"
  proof
    fix t assume t: "t \<in> set tuples"
    let ?f = "find (\<lambda>olLayer. get_id s olLayer = Some (layer_id (fst t))) (layers s)"
    from b t have c: "case ?f of Some olLayer \<Rightarrow> snd t = olLayer
        | None \<Rightarrow> length (objs s) \<le> snd t \<and> snd t < length (objs s')"
      by (rule bspec)
    show "case ?f of Some olLayer \<Rightarrow> snd t = olLayer \<and> olLayer \<in> set (layers s)
        | None \<Rightarrow> length (objs s) \<le> snd t \<and> snd t < length (objs s') \<and>
                  snd t \<notin> set (layers s)"
    proof (cases ?f)
      case None
      with c have "length (objs s) \<le> snd t" by simp
      with assms(1) have "snd t \<notin> set (layers s)" by (auto simp: wf_state_def)
      with c None show ?thesis by simp
    next
      case (Some olLayer)
      then have "olLayer \<in> set (layers s)" by (auto simp: find_Some_iff)
      with c Some show ?thesis by simp
    qed
  qed
  with a show ?thesis by simp
qed

theorem syncLayerInitialization_reuse_witness:
  "\<exists>s'. syncLayerInitialization example_externals (example_map [IdStr ''a'', IdStr ''b''])
          [example_layer (IdStr ''b'') VECTOR, example_layer (IdStr ''c'') TILE] =
        Inr (s', [(example_layer (IdStr ''b'') VECTOR, 1), (example_layer (IdStr ''c'') TILE, 2)]) \<and>
        layers s' = [0, 1] \<and> take 2 (objs s') = objs (example_map [IdStr ''a'', IdStr ''b''])"
proof -
  let ?s = "example_map [IdStr ''a'', IdStr ''b'']"
  let ?L = "[example_layer (IdStr ''b'') VECTOR, example_layer (IdStr ''c'') TILE]"
  have wf: "wf_state ?s" by (simp add: wf_state_def example_map_def)
  have "\<exists>s'. syncLayerInitialization example_externals ?s ?L =
      Inr (s', [(example_layer (IdStr ''b'') VECTOR, 1), (example_layer (IdStr ''c'') TILE, 2)])"
    by (simp add: example_map_def example_object_def example_layer_def get_id_def
          createCorrespondingOLLayer_def convertTmsLayersToOl_def alloc_def set_id_def)
  then obtain s' where run: "syncLayerInitialization example_externals ?s ?L =
      Inr (s', [(example_layer (IdStr ''b'') VECTOR, 1), (example_layer (IdStr ''c'') TILE, 2)])"
    by (rule exE)
  have l: "layers ?s = [0, 1]" and n: "length (objs ?s) = 2"
    by (simp_all add: example_map_def)
  from syncLayerInitialization_reuse [OF wf run]
  have "layers s' = layers ?s" "take (length (objs ?s)) (objs s') = objs ?s"
    by simp_all
  then have "layers s' = [0, 1]" "take 2 (objs s') = objs ?s"
    unfolding l n .
  with run show ?thesis by (intro exI [of _ s'] conjI)
qed

section \<open>Relocations on lists\<close>

lemma move_eq:
  assumes "i < t" "t < length xs"
  shows "move i t xs = take i xs @ take (t - i) (drop (Suc i) xs) @ xs ! i # drop (Suc t) xs"
proof -
  have "drop t (take i xs @ drop (Suc i) xs) = drop (Suc t) xs"
    using assms by (simp add: min_def)
  moreover have "take t (take i xs @ drop (Suc i) xs) = take i xs @ take (t - i) (drop (Suc i) xs)"
    using assms by (simp add: min_def)
  ultimately show ?thesis by (simp add: move_def Let_def)
qed

lemma length_move: "i < length xs \<Longrightarrow> length (move i t xs) = length xs"
  by (auto simp: move_def Let_def min_def)

lemma mset_move: "i < length xs \<Longrightarrow> mset (move i t xs) = mset xs"
proof -
  assume i: "i < length xs"
  let ?rest = "take i xs @ drop (Suc i) xs"
  have "mset (move i t xs) = mset (take t ?rest @ drop t ?rest) + {#xs ! i#}"
    by (simp add: move_def Let_def del: append_take_drop_id)
  also have "\<dots> = mset ?rest + {#xs ! i#}"
    by (simp only: append_take_drop_id)
  also have "\<dots> = mset (take i xs @ xs ! i # drop (Suc i) xs)"
    by simp
  also have "\<dots> = mset xs"
    using i by (simp add: id_take_nth_drop [symmetric])
  finally show ?thesis .
qed

lemma move_split:
  assumes "i < t" "t < length xs"
  shows "\<exists>front. length front = t \<and> move i t xs = front @ xs ! i # drop (Suc t) xs"
proof -
  let ?front = "take i xs @ take (t - i) (drop (Suc i) xs)"
  have "length ?front = t" using assms by (simp add: min_def) arith
  moreover have "move i t xs = ?front @ xs ! i # drop (Suc t) xs"
    using assms by (simp add: move_eq)
  ultimately show ?thesis by blast
qed

lemma move_nth_target: "i < t \<Longrightarrow> t < length xs \<Longrightarrow> move i t xs ! t = xs ! i"
  using move_split [of i t xs] by (auto simp: nth_append)

lemma move_nth_above:
  assumes "i < t" "t < j" "j < length xs"
  shows "move i t xs ! j = xs ! j"
proof -
  from assms obtain front where f: "length front = t"
      "move i t xs = front @ xs ! i # drop (Suc t) xs"
    using move_split [of i t xs] by auto
  from assms obtain d where d: "j = Suc t + d" by (metis Suc_leI le_iff_add)
  have "move i t xs ! j = (xs ! i # drop (Suc t) xs) ! (Suc d)"
    using f d by (simp add: nth_append)
  also have "\<dots> = xs ! j" using assms d by simp
  finally show ?thesis .
qed

lemma map_move: "i < length xs \<Longrightarrow> map f (move i t xs) = move i t (map f xs)"
  by (simp add: move_def Let_def take_map drop_map)

section \<open>The potential of an order\<close>

lemma bitval_less: "bitval bs < 2 ^ length bs"
  by (induction bs) auto

lemma bitval_False: "False \<in> set bs \<Longrightarrow> Suc (bitval bs) < 2 ^ length bs"
proof (induction bs)
  case Nil
  then show ?case by simp
next
  case (Cons b bs)
  show ?case
  proof (cases b)
    case True
    with Cons have "Suc (bitval bs) < 2 ^ length bs" by simp
    with True show ?thesis by simp
  next
    case False
    have "bitval bs < 2 ^ length bs" by (rule bitval_less)
    with False show ?thesis by simp
  qed
qed

lemma bitval_increase:
  "length bs = length cs \<Longrightarrow> t < length bs \<Longrightarrow> \<not> bs ! t \<Longrightarrow> cs ! t \<Longrightarrow>
   (\<forall>j. t < j \<and> j < length bs \<longrightarrow> cs ! j = bs ! j) \<Longrightarrow> bitval bs < bitval cs"
proof (induction bs arbitrary: cs t)
  case Nil
  then show ?case by simp
next
  case (Cons b bs)
  then obtain c cs' where cs: "cs = c # cs'" by (cases cs) auto
  show ?case
  proof (cases t)
    case 0
    have "\<forall>j < length bs. cs' ! j = bs ! j"
    proof (intro allI impI)
      fix j assume "j < length bs"
      with Cons.prems(5) [rule_format, of "Suc j"] 0 cs show "cs' ! j = bs ! j" by simp
    qed
    with Cons.prems(1) cs have "cs' = bs" by (simp add: list_eq_iff_nth_eq)
    with Cons.prems 0 cs show ?thesis by simp
  next
    case (Suc t')
    have "\<forall>j. t' < j \<and> j < length bs \<longrightarrow> cs' ! j = bs ! j"
    proof (intro allI impI)
      fix j assume "t' < j \<and> j < length bs"
      with Cons.prems(5) [rule_format, of "Suc j"] Suc cs show "cs' ! j = bs ! j" by simp
    qed
    with Cons.IH [of cs' t'] Cons.prems Suc cs have "bitval bs < bitval cs'" by simp
    then show ?thesis using cs by simp
  qed
qed

section \<open>The order reconciler\<close>

lemma firstMismatch_None:
  "firstMismatch old new = None \<longleftrightarrow>
   (\<forall>idx < length new. nth_opt old idx = Some (Tag (new ! idx)))"
  by (auto simp: firstMismatch_def find_None_iff)

lemma firstMismatch_None_take:
  "firstMismatch old new = None \<longleftrightarrow>
   length new \<le> length old \<and> take (length new) old = map Tag new"
proof -
  have "(\<forall>idx < length new. nth_opt old idx = Some (Tag (new ! idx))) \<longleftrightarrow>
        length new \<le> length old \<and> take (length new) old = map Tag new"
  proof
    assume a: "\<forall>idx < length new. nth_opt old idx = Some (Tag (new ! idx))"
    have len: "length new \<le> length old"
    proof (rule ccontr)
      assume "\<not> length new \<le> length old"
      then have "length old < length new" by simp
      with a have "nth_opt old (length old) = Some (Tag (new ! length old))" by blast
      then show False by (simp add: nth_opt_def)
    qed
    moreover have "take (length new) old = map Tag new"
      using a len by (auto simp: list_eq_iff_nth_eq nth_opt_def split: if_splits)
    ultimately show "length new \<le> length old \<and> take (length new) old = map Tag new" by blast
  next
    assume b: "length new \<le> length old \<and> take (length new) old = map Tag new"
    show "\<forall>idx < length new. nth_opt old idx = Some (Tag (new ! idx))"
    proof (intro allI impI)
      fix idx assume i: "idx < length new"
      with b have "take (length new) old ! idx = map Tag new ! idx" by simp
      with i have "old ! idx = Tag (new ! idx)" by simp
      with i b show "nth_opt old idx = Some (Tag (new ! idx))" by (simp add: nth_opt_def)
    qed
  qed
  then show ?thesis by (simp add: firstMismatch_None)
qed

lemma firstMismatch_Some:
  "firstMismatch old new = Some idx \<Longrightarrow>
   idx < length new \<and> nth_opt old idx \<noteq> Some (Tag (new ! idx)) \<and>
   (\<forall>j < idx. nth_opt old j = Some (Tag (new ! j)))"
  by (auto simp: firstMismatch_def find_Some_iff)

lemma findIndex_none: "(\<forall>x \<in> set xs. \<not> P x) \<Longrightarrow> findIndex P xs = - 1"
  by (induction xs) (simp_all add: Let_def)

lemma findIndex_nth:
  "t < length xs \<Longrightarrow> distinct xs \<Longrightarrow> findIndex (\<lambda>x. x = xs ! t) xs = int t"
proof (induction xs arbitrary: t)
  case Nil
  then show ?case by simp
next
  case (Cons x xs)
  show ?case
  proof (cases t)
    case 0
    then show ?thesis by simp
  next
    case (Suc t')
    with Cons.prems have "x \<noteq> xs ! t'" by auto
    moreover from Cons Suc have "findIndex (\<lambda>y. y = xs ! t') xs = int t'" by simp
    ultimately show ?thesis using Suc by (simp add: Let_def)
  qed
qed

lemma getLayersIds_objs:
  "objs s' = objs s \<Longrightarrow> getLayersIds s' ls = getLayersIds s ls"
  by (simp add: getLayersIds_def get_id_def)

lemma getLayersIds_move:
  "i < length ls \<Longrightarrow> getLayersIds s (move i t ls) = move i t (getLayersIds s ls)"
  by (simp add: getLayersIds_def map_move)

lemma insertAt_nat: "t \<le> length xs \<Longrightarrow> insertAt xs (int t) x = take t xs @ x # drop t xs"
  by (simp add: insertAt_def Let_def min_def)

text \<open>A relocation when the current order is a rearrangement of the desired one.\<close>

lemma relocate_rearrangement:
  assumes old: "getLayersIds s (layers s) = map Tag cur"
    and perm: "mset cur = mset new" and dist: "distinct new"
    and mis: "firstMismatch (map Tag cur) new = Some idx"
  shows "\<exists>t. idx < t \<and> t < length new \<and> new ! t = cur ! idx \<and> cur ! t \<noteq> new ! t \<and>
             relocate s (map Tag cur) new idx = Inr (s\<lparr>layers := move idx t (layers s)\<rparr>)"
proof -
  have len: "length cur = length new" using perm by (metis size_mset)
  have lenl: "length (layers s) = length cur"
    using old by (metis length_map getLayersIds_def)
  have dcur: "distinct cur" using perm dist by (metis distinct_count_atmost_1 mset_eq_setD set_mset_mset)
  from firstMismatch_Some [OF mis] have idx: "idx < length new"
    and ne: "nth_opt (map Tag cur) idx \<noteq> Some (Tag (new ! idx))"
    and before: "\<forall>j < idx. nth_opt (map Tag cur) j = Some (Tag (new ! j))"
    by blast+
  from ne idx len have ne': "cur ! idx \<noteq> new ! idx" by (simp add: nth_opt_def)
  from before idx len have before': "\<forall>j < idx. cur ! j = new ! j" by (simp add: nth_opt_def)
  have "cur ! idx \<in> set new" using idx len perm by (metis mset_eq_setD nth_mem)
  then obtain t where t: "t < length new" "new ! t = cur ! idx" by (metis in_set_conv_nth)
  have "t \<noteq> idx" using t ne' by auto
  moreover have "\<not> t < idx"
  proof
    assume "t < idx"
    with before' t have "cur ! t = cur ! idx" by simp
    with dcur \<open>t < idx\<close> idx len show False by (simp add: nth_eq_iff_index_eq)
  qed
  ultimately have it: "idx < t" by simp
  have ct: "cur ! t \<noteq> new ! t"
  proof
    assume "cur ! t = new ! t"
    with t have "cur ! t = cur ! idx" by simp
    with dcur it t len show False by (simp add: nth_eq_iff_index_eq)
  qed
  have fi: "findIndex (\<lambda>i. Some (Tag i) = nth_opt (map Tag cur) idx) new = int t"
  proof -
    have "(\<lambda>i. Some (Tag i) = nth_opt (map Tag cur) idx) = (\<lambda>i. i = new ! t)"
      using idx len t by (auto simp: nth_opt_def)
    then show ?thesis using findIndex_nth [OF t(1) dist] by simp
  qed
  have ra: "removeAt (layers s) idx =
      (Some (layers s ! idx), take idx (layers s) @ drop (Suc idx) (layers s))"
    using idx len lenl by (simp add: removeAt_def)
  have "t \<le> length (take idx (layers s) @ drop (Suc idx) (layers s))"
    using t idx len lenl by (auto simp: min_def)
  from insertAt_nat [OF this]
  have "relocate s (map Tag cur) new idx = Inr (s\<lparr>layers := move idx t (layers s)\<rparr>)"
    by (simp add: relocate_def ra fi move_def Let_def)
  with it t ct show ?thesis by blast
qed

lemma length_agree: "length (agree xs ys) = min (length xs) (length ys)"
  by (simp add: agree_def)

lemma nth_agree: "j < length xs \<Longrightarrow> j < length ys \<Longrightarrow> agree xs ys ! j = (xs ! j = ys ! j)"
  by (simp add: agree_def)

lemma potential_increase:
  assumes len: "length cur = length new" and it: "idx < t" and t: "t < length new"
    and tgt: "new ! t = cur ! idx" and ct: "cur ! t \<noteq> new ! t"
  shows "potential cur new < potential (move idx t cur) new"
proof -
  let ?bs = "tl (agree cur new)" and ?cs = "tl (agree (move idx t cur) new)"
  have idx: "idx < length cur" using it t len by simp
  have lm: "length (move idx t cur) = length cur" using idx by (rule length_move)
  obtain t' where t': "t = Suc t'" using it by (cases t) auto
  have lb: "length ?bs = length new - 1" and lc: "length ?cs = length new - 1"
    using len lm by (simp_all add: length_agree)
  have b: "\<And>j. j < length new - 1 \<Longrightarrow> ?bs ! j = (cur ! Suc j = new ! Suc j)"
    using len by (simp add: nth_tl length_agree nth_agree)
  have c: "\<And>j. j < length new - 1 \<Longrightarrow> ?cs ! j = (move idx t cur ! Suc j = new ! Suc j)"
    using len lm by (simp add: nth_tl length_agree nth_agree)
  have t'l: "t' < length new - 1" using t t' by simp
  have "bitval ?bs < bitval ?cs"
  proof (rule bitval_increase [where t = t'])
    show "length ?bs = length ?cs" using lb lc by simp
    show "t' < length ?bs" using t'l lb by simp
    show "\<not> ?bs ! t'" using b [OF t'l] ct t' by simp
    have "move idx t cur ! t = cur ! idx" using it t len by (simp add: move_nth_target)
    then show "?cs ! t'" using c [OF t'l] tgt t' by simp
    show "\<forall>j. t' < j \<and> j < length ?bs \<longrightarrow> ?cs ! j = ?bs ! j"
    proof (intro allI impI)
      fix j assume j: "t' < j \<and> j < length ?bs"
      then have jl: "j < length new - 1" using lb by simp
      have "move idx t cur ! Suc j = cur ! Suc j"
        using it j t' jl len by (intro move_nth_above) simp_all
      then show "?cs ! j = ?bs ! j" using b [OF jl] c [OF jl] by simp
    qed
  qed
  then show ?thesis by (simp add: potential_def)
qed

lemma potential_not_full:
  assumes len: "length cur = length new" and t: "0 < t" "t < length new"
    and ct: "cur ! t \<noteq> new ! t"
  shows "Suc (potential cur new) < 2 ^ (length new - 1)"
proof -
  let ?bs = "tl (agree cur new)"
  obtain t' where t': "t = Suc t'" using t by (cases t) auto
  have lb: "length ?bs = length new - 1" using len by (simp add: length_agree)
  have "?bs ! t' = False"
    using len t t' ct by (simp add: nth_tl length_agree nth_agree)
  moreover have "t' < length ?bs" using lb t t' by simp
  ultimately have "False \<in> set ?bs" by (metis nth_mem)
  from bitval_False [OF this] lb show ?thesis by (simp add: potential_def)
qed

lemma updateMapLayerOrder_rearrangement:
  "getLayersIds s (layers s) = map Tag cur \<Longrightarrow> mset cur = mset new \<Longrightarrow> distinct new \<Longrightarrow>
   2 ^ (length new - 1) \<le> Suc (potential cur new + fuel) \<Longrightarrow>
   \<exists>s'. updateMapLayerOrder fuel s (map Tag cur) new = Some (Inr s') \<and>
        getLayersIds s' (layers s') = map Tag new \<and>
        objs s' = objs s \<and> view s' = view s \<and> trace s' = trace s \<and>
        mset (layers s') = mset (layers s)"
proof (induction fuel arbitrary: s cur)
  case 0
  have len: "length cur = length new" using 0(2) by (metis size_mset)
  show ?case
  proof (cases "firstMismatch (map Tag cur) new")
    case None
    then have "map Tag cur = map Tag new"
      using len by (simp add: firstMismatch_None_take)
    then have "cur = new" by (simp add: inj_map_eq_map inj_def)
    moreover have "updateMapLayerOrder 0 s (map Tag cur) new = Some (Inr s)"
      using None by (subst updateMapLayerOrder.simps) simp
    ultimately show ?thesis using 0(1) by simp
  next
    case (Some idx)
    from relocate_rearrangement [OF 0(1,2,3) Some] obtain t where
      "idx < t" "t < length new" "cur ! t \<noteq> new ! t" by blast
    then have "Suc (potential cur new) < 2 ^ (length new - 1)"
      using len by (intro potential_not_full [where t = t]) simp_all
    with 0(4) show ?thesis by simp
  qed
next
  case (Suc fuel)
  have len: "length cur = length new" using Suc.prems(2) by (metis size_mset)
  show ?case
  proof (cases "firstMismatch (map Tag cur) new")
    case None
    then have "map Tag cur = map Tag new"
      using len by (simp add: firstMismatch_None_take)
    then have "cur = new" by (simp add: inj_map_eq_map inj_def)
    moreover have "updateMapLayerOrder (Suc fuel) s (map Tag cur) new = Some (Inr s)"
      using None by (subst updateMapLayerOrder.simps) simp
    ultimately show ?thesis using Suc.prems(1) by simp
  next
    case (Some idx)
    from relocate_rearrangement [OF Suc.prems(1,2,3) Some] obtain t where
      t: "idx < t" "t < length new" "new ! t = cur ! idx" "cur ! t \<noteq> new ! t"
      and rel: "relocate s (map Tag cur) new idx = Inr (s\<lparr>layers := move idx t (layers s)\<rparr>)"
      by blast
    let ?s1 = "s\<lparr>layers := move idx t (layers s)\<rparr>"
    have idx: "idx < length cur" using t len by simp
    have lenl: "length (layers s) = length cur"
      using Suc.prems(1) by (metis length_map getLayersIds_def)
    have ids1: "getLayersIds ?s1 (layers ?s1) = map Tag (move idx t cur)"
    proof -
      have "getLayersIds ?s1 (layers ?s1) = getLayersIds s (move idx t (layers s))"
        by (simp add: getLayersIds_def get_id_def)
      also have "\<dots> = move idx t (getLayersIds s (layers s))"
        using idx lenl by (simp add: getLayersIds_move)
      also have "\<dots> = map Tag (move idx t cur)"
        using idx by (simp add: Suc.prems(1) map_move)
      finally show ?thesis .
    qed
    have perm1: "mset (move idx t cur) = mset new"
      using idx Suc.prems(2) by (simp add: mset_move)
    have "potential cur new < potential (move idx t cur) new"
      using len t by (intro potential_increase) simp_all
    with Suc.prems(4) have fuel1: "2 ^ (length new - 1) \<le> Suc (potential (move idx t cur) new + fuel)"
      by simp
    from Suc.IH [OF ids1 perm1 Suc.prems(3) fuel1] obtain s' where
      s': "updateMapLayerOrder fuel ?s1 (map Tag (move idx t cur)) new = Some (Inr s')"
        "getLayersIds s' (layers s') = map Tag new"
        "objs s' = objs ?s1" "view s' = view ?s1" "trace s' = trace ?s1"
        "mset (layers s') = mset (layers ?s1)"
      by blast
    have "updateMapLayerOrder (Suc fuel) s (map Tag cur) new =
          updateMapLayerOrder fuel ?s1 (getLayersIds ?s1 (layers ?s1)) new"
      using Some rel by (subst updateMapLayerOrder.simps) simp
    with s' ids1 have "updateMapLayerOrder (Suc fuel) s (map Tag cur) new = Some (Inr s')"
      by simp
    moreover have "mset (layers s') = mset (layers s)"
      using s'(6) idx lenl by (simp add: mset_move)
    ultimately show ?thesis using s' by simp
  qed
qed

lemma mset_map_Tag: "mset (map Tag xs) = mset (map Tag ys) \<Longrightarrow> mset xs = mset ys"
proof -
  assume "mset (map Tag xs) = mset (map Tag ys)"
  then have "image_mset Tag (mset xs) = image_mset Tag (mset ys)" by simp
  then show ?thesis by (rule multiset.inj_map_strong [rotated]) simp
qed

lemma rearrangement_of_Tags:
  assumes "mset old = mset (map Tag new)"
  shows "\<exists>cur. old = map Tag cur \<and> mset cur = mset new"
proof -
  from assms have "set old = Tag ` set new" by (metis mset_eq_setD set_map)
  then have "\<forall>y \<in> set old. \<exists>x. y = Tag x" by auto
  then obtain cur where cur: "old = map Tag cur" by (metis ex_map_conv)
  with assms have "mset cur = mset new" by (intro mset_map_Tag) simp
  with cur show ?thesis by blast
qed

lemma getLayersIds_Tags:
  "getLayersIds s ls = map Tag cur \<Longrightarrow> map (get_id s) ls = map Some cur \<and> (\<forall>i \<in> set cur. truthy i)"
proof (induction ls arbitrary: cur)
  case Nil
  then show ?case by (simp add: getLayersIds_def)
next
  case (Cons r ls)
  then obtain i rest where cur: "cur = i # rest" by (cases cur) (auto simp: getLayersIds_def)
  with Cons.prems have hd: "get_id s r = Some i \<and> truthy i" and tl: "getLayersIds s ls = map Tag rest"
    by (auto simp: getLayersIds_def split: option.splits if_splits)
  from Cons.IH [OF tl] hd cur show ?case by simp
qed

section \<open>Convergence of the order reconciler\<close>

text \<open>
  C2, as the code has it. The claim bounds the relocations by \<open>n\<close>; the code needs
  more (7 for a rotation of 4 ids). What holds: when the ids read from the collection
  are a rearrangement of \<open>n\<close> distinct desired ids, \<open>updateMapLayerOrder\<close> returns after
  at most \<open>2 ^ (n - 1) - 1\<close> relocations, and the ids of the collection are then the
  desired ids in the desired order; it has only rearranged the collection.
\<close>

theorem updateMapLayerOrder_converges:
  assumes "oldLayerOrder = getLayersIds s (layers s)"
    and "mset oldLayerOrder = mset (map Tag newLayerOrder)"
    and "distinct newLayerOrder"
    and "2 ^ (length newLayerOrder - 1) - 1 \<le> fuel"
  shows "\<exists>s'. updateMapLayerOrder fuel s oldLayerOrder newLayerOrder = Some (Inr s') \<and>
              layer_ids s' = map Some newLayerOrder \<and>
              objs s' = objs s \<and> mset (layers s') = mset (layers s)"
proof -
  from rearrangement_of_Tags [OF assms(2)] obtain cur where
    cur: "oldLayerOrder = map Tag cur" "mset cur = mset newLayerOrder" by blast
  have ids: "getLayersIds s (layers s) = map Tag cur" using assms(1) cur(1) by simp
  have "2 ^ (length newLayerOrder - 1) \<le> Suc (potential cur newLayerOrder + fuel)"
    using assms(4) by simp
  from updateMapLayerOrder_rearrangement [OF ids cur(2) assms(3) this] obtain s' where
    s': "updateMapLayerOrder fuel s (map Tag cur) newLayerOrder = Some (Inr s')"
      "getLayersIds s' (layers s') = map Tag newLayerOrder"
      "objs s' = objs s" "mset (layers s') = mset (layers s)"
    by blast
  from getLayersIds_Tags [OF s'(2)] have "layer_ids s' = map Some newLayerOrder"
    by (simp add: layer_ids_def)
  with s' cur(1) show ?thesis by simp
qed

theorem updateMapLayerOrder_converges_witness:
  "\<exists>s'. updateMapLayerOrder 7
          (example_map [IdStr ''a'', IdStr ''b'', IdStr ''c'', IdStr ''d''])
          [Tag (IdStr ''a''), Tag (IdStr ''b''), Tag (IdStr ''c''), Tag (IdStr ''d'')]
          [IdStr ''d'', IdStr ''a'', IdStr ''b'', IdStr ''c''] = Some (Inr s') \<and>
        layer_ids s' = [Some (IdStr ''d''), Some (IdStr ''a''), Some (IdStr ''b''), Some (IdStr ''c'')]"
proof -
  let ?s = "example_map [IdStr ''a'', IdStr ''b'', IdStr ''c'', IdStr ''d'']"
  let ?old = "[Tag (IdStr ''a''), Tag (IdStr ''b''), Tag (IdStr ''c''), Tag (IdStr ''d'')]"
  let ?new = "[IdStr ''d'', IdStr ''a'', IdStr ''b'', IdStr ''c'']"
  have 1: "?old = getLayersIds ?s (layers ?s)"
    by (simp add: getLayersIds_def get_id_def example_map_def example_object_def)
  have 2: "mset ?old = mset (map Tag ?new)" by (simp add: add.commute)
  have 3: "distinct ?new" by simp
  have 4: "2 ^ (length ?new - 1) - 1 \<le> (7::nat)" by simp
  from updateMapLayerOrder_converges [OF 1 2 3 4] obtain s' where
    "updateMapLayerOrder 7 ?s ?old ?new = Some (Inr s')" "layer_ids s' = map Some ?new"
    by blast
  then show ?thesis by (intro exI [of _ s']) simp
qed

text \<open>
  The rotation of four layers: four relocations do not suffice, nor do six; seven do.
\<close>

theorem updateMapLayerOrder_needs_more_than_n:
  "updateMapLayerOrder 4
     (example_map [IdStr ''a'', IdStr ''b'', IdStr ''c'', IdStr ''d''])
     (getLayersIds (example_map [IdStr ''a'', IdStr ''b'', IdStr ''c'', IdStr ''d'']) [0, 1, 2, 3])
     [IdStr ''d'', IdStr ''a'', IdStr ''b'', IdStr ''c''] = None \<and>
   updateMapLayerOrder 6
     (example_map [IdStr ''a'', IdStr ''b'', IdStr ''c'', IdStr ''d''])
     (getLayersIds (example_map [IdStr ''a'', IdStr ''b'', IdStr ''c'', IdStr ''d'']) [0, 1, 2, 3])
     [IdStr ''d'', IdStr ''a'', IdStr ''b'', IdStr ''c''] = None \<and>
   map_option (map_sum id layers) (updateMapLayerOrder 7
     (example_map [IdStr ''a'', IdStr ''b'', IdStr ''c'', IdStr ''d''])
     (getLayersIds (example_map [IdStr ''a'', IdStr ''b'', IdStr ''c'', IdStr ''d'']) [0, 1, 2, 3])
     [IdStr ''d'', IdStr ''a'', IdStr ''b'', IdStr ''c'']) = Some (Inr [3, 0, 1, 2])"
  by code_simp

section \<open>The order reconciler on arbitrary inputs\<close>

lemma mset_insertAt: "mset (insertAt xs k x) = add_mset x (mset xs)"
proof -
  obtain p where "insertAt xs k x = take p xs @ x # drop p xs"
    by (simp add: insertAt_def Let_def)
  then have "mset (insertAt xs k x) = add_mset x (mset (take p xs @ drop p xs))"
    by (simp del: append_take_drop_id)
  then show ?thesis by (simp only: append_take_drop_id)
qed

lemma relocate_in_range:
  assumes "idx < length (layers s)"
  shows "\<exists>ls. relocate s old new idx = Inr (s\<lparr>layers := ls\<rparr>) \<and> mset ls = mset (layers s)"
proof -
  let ?rest = "take idx (layers s) @ drop (Suc idx) (layers s)"
  let ?k = "findIndex (\<lambda>i. Some (Tag i) = nth_opt old idx) new"
  have "relocate s old new idx = Inr (s\<lparr>layers := insertAt ?rest ?k (layers s ! idx)\<rparr>)"
    using assms by (simp add: relocate_def removeAt_def Let_def)
  moreover have "mset (insertAt ?rest ?k (layers s ! idx)) = mset (take idx (layers s) @ layers s ! idx # drop (Suc idx) (layers s))"
    by (simp add: mset_insertAt)
  then have "mset (insertAt ?rest ?k (layers s ! idx)) = mset (layers s)"
    using assms by (simp only: id_take_nth_drop [symmetric])
  ultimately show ?thesis by blast
qed


lemma mset_getLayersIds:
  "mset ls = mset ls' \<Longrightarrow> mset (getLayersIds s ls) = mset (getLayersIds s ls')"
  unfolding getLayersIds_def by (metis mset_map)

lemma getLayersIds_layers_update:
  "getLayersIds (s\<lparr>layers := ls\<rparr>) ls' = getLayersIds s ls'"
  by (simp add: getLayersIds_def get_id_def)

lemma length_getLayersIds: "length (getLayersIds s ls) = length ls"
  by (simp add: getLayersIds_def)

lemma updateMapLayerOrder_matching:
  "firstMismatch old new = None \<Longrightarrow> updateMapLayerOrder fuel s old new = Some (Inr s)"
  by (subst updateMapLayerOrder.simps) simp

lemma updateMapLayerOrder_unbounded:
  "length new = length (layers s) \<Longrightarrow>
   mset (getLayersIds s (layers s)) \<noteq> mset (map Tag new) \<Longrightarrow>
   updateMapLayerOrder fuel s (getLayersIds s (layers s)) new = None"
proof (induction fuel arbitrary: s)
  case 0
  have "firstMismatch (getLayersIds s (layers s)) new \<noteq> None"
  proof
    assume "firstMismatch (getLayersIds s (layers s)) new = None"
    then have "getLayersIds s (layers s) = map Tag new"
      using 0(1) by (simp add: firstMismatch_None_take length_getLayersIds)
    with 0(2) show False by simp
  qed
  then show ?case by (subst updateMapLayerOrder.simps) auto
next
  case (Suc fuel)
  have "firstMismatch (getLayersIds s (layers s)) new \<noteq> None"
  proof
    assume "firstMismatch (getLayersIds s (layers s)) new = None"
    then have "getLayersIds s (layers s) = map Tag new"
      using Suc.prems(1) by (simp add: firstMismatch_None_take length_getLayersIds)
    with Suc.prems(2) show False by simp
  qed
  then obtain idx where mis: "firstMismatch (getLayersIds s (layers s)) new = Some idx"
    by blast
  from firstMismatch_Some [OF mis] Suc.prems(1) have "idx < length (layers s)" by simp
  from relocate_in_range [OF this] obtain ls where
    rel: "relocate s (getLayersIds s (layers s)) new idx = Inr (s\<lparr>layers := ls\<rparr>)"
    and ms: "mset ls = mset (layers s)"
    by blast
  let ?s1 = "s\<lparr>layers := ls\<rparr>"
  have l1: "length new = length (layers ?s1)"
    using Suc.prems(1) mset_eq_length [OF ms] by simp
  have "mset (getLayersIds ?s1 (layers ?s1)) = mset (getLayersIds s (layers s))"
    using mset_getLayersIds [OF ms, of s] by (simp add: getLayersIds_layers_update)
  with Suc.prems(2) have m1: "mset (getLayersIds ?s1 (layers ?s1)) \<noteq> mset (map Tag new)"
    by simp
  have "updateMapLayerOrder (Suc fuel) s (getLayersIds s (layers s)) new =
        updateMapLayerOrder fuel ?s1 (getLayersIds ?s1 (layers ?s1)) new"
    using mis rel by (subst updateMapLayerOrder.simps) simp
  also have "\<dots> = None" using l1 m1 by (rule Suc.IH)
  finally show ?case .
qed

text \<open>
  C5, as the code has it. \<open>updateMapLayerOrder\<close> makes no permutation check and has
  no error of its own to raise. When the ids read from the collection are not a
  rearrangement of the desired ids, then: if both sequences have the same length, it
  relocates without end, whatever number of relocations it is given; and if the
  desired ids are a prefix of the current ones, it returns at once and leaves the
  collection as it is.
\<close>

theorem updateMapLayerOrder_no_permutation_check:
  assumes "oldLayerOrder = getLayersIds s (layers s)"
    and "mset oldLayerOrder \<noteq> mset (map Tag newLayerOrder)"
  shows "(length newLayerOrder = length oldLayerOrder \<longrightarrow>
            updateMapLayerOrder fuel s oldLayerOrder newLayerOrder = None) \<and>
         (length newLayerOrder \<le> length oldLayerOrder \<and>
          take (length newLayerOrder) oldLayerOrder = map Tag newLayerOrder \<longrightarrow>
            updateMapLayerOrder fuel s oldLayerOrder newLayerOrder = Some (Inr s))"
proof (intro conjI impI)
  assume "length newLayerOrder = length oldLayerOrder"
  then have "length newLayerOrder = length (layers s)"
    using assms(1) by (simp add: length_getLayersIds)
  moreover have "mset (getLayersIds s (layers s)) \<noteq> mset (map Tag newLayerOrder)"
    using assms by simp
  ultimately have "updateMapLayerOrder fuel s (getLayersIds s (layers s)) newLayerOrder = None"
    by (rule updateMapLayerOrder_unbounded)
  then show "updateMapLayerOrder fuel s oldLayerOrder newLayerOrder = None"
    using assms(1) by simp
next
  assume "length newLayerOrder \<le> length oldLayerOrder \<and>
          take (length newLayerOrder) oldLayerOrder = map Tag newLayerOrder"
  then have "firstMismatch oldLayerOrder newLayerOrder = None"
    by (simp add: firstMismatch_None_take)
  then show "updateMapLayerOrder fuel s oldLayerOrder newLayerOrder = Some (Inr s)"
    by (rule updateMapLayerOrder_matching)
qed

theorem updateMapLayerOrder_no_permutation_check_witness:
  "updateMapLayerOrder 1000 (example_map [IdStr ''a''])
     [Tag (IdStr ''a'')] [IdStr ''b''] = None \<and>
   updateMapLayerOrder 1000 (example_map [IdStr ''a'', IdStr ''b''])
     [Tag (IdStr ''a''), Tag (IdStr ''b'')] [IdStr ''a''] =
     Some (Inr (example_map [IdStr ''a'', IdStr ''b'']))"
proof -
  let ?s = "example_map [IdStr ''a'']" and ?t = "example_map [IdStr ''a'', IdStr ''b'']"
  have s1: "[Tag (IdStr ''a'')] = getLayersIds ?s (layers ?s)"
    by (simp add: getLayersIds_def get_id_def example_map_def example_object_def)
  have s2: "mset [Tag (IdStr ''a'')] \<noteq> mset (map Tag [IdStr ''b''])" by simp
  have t1: "[Tag (IdStr ''a''), Tag (IdStr ''b'')] = getLayersIds ?t (layers ?t)"
    by (simp add: getLayersIds_def get_id_def example_map_def example_object_def)
  have t2: "mset [Tag (IdStr ''a''), Tag (IdStr ''b'')] \<noteq> mset (map Tag [IdStr ''a''])" by simp
  have same: "length [IdStr ''b''] = length [Tag (IdStr ''a'')]" by simp
  have prefix: "length [IdStr ''a''] \<le> length [Tag (IdStr ''a''), Tag (IdStr ''b'')] \<and>
      take (length [IdStr ''a'']) [Tag (IdStr ''a''), Tag (IdStr ''b'')] = map Tag [IdStr ''a'']"
    by simp
  from updateMapLayerOrder_no_permutation_check [OF s1 s2, of 1000] same
  have a: "updateMapLayerOrder 1000 ?s [Tag (IdStr ''a'')] [IdStr ''b''] = None"
    by blast
  from updateMapLayerOrder_no_permutation_check [OF t1 t2, of 1000] prefix
  have b: "updateMapLayerOrder 1000 ?t [Tag (IdStr ''a''), Tag (IdStr ''b'')] [IdStr ''a''] =
      Some (Inr ?t)"
    by blast
  from a b show ?thesis by (rule conjI)
qed

text \<open>
  Two inputs that are not permutations of one another. With desired \<open>[a]\<close> against
  current \<open>[a, b]\<close> the call returns normally, the collection still \<open>[a, b]\<close>; with
  desired \<open>[a]\<close> against an empty collection it ends in a \<open>TypeError\<close>. No error
  for the violated precondition is raised in either case.
\<close>

theorem updateMapLayerOrder_raises_no_InvariantViolation:
  "map_option (map_sum id layers)
     (updateMapLayerOrder 0 (example_map [IdStr ''a'', IdStr ''b''])
        (getLayersIds (example_map [IdStr ''a'', IdStr ''b'']) [0, 1]) [IdStr ''a'']) =
     Some (Inr [0, 1]) \<and>
   updateMapLayerOrder 1 (example_map []) (getLayersIds (example_map []) []) [IdStr ''a''] =
     Some (Inl TypeError)"
  by code_simp

section \<open>Adds and updates\<close>

lemma addAndUpdate_Inr:
  assumes "addAndUpdate X ids s t = Inr s'"
  shows "\<exists>s1. addLayers s (snd t) ids = Inr s1 \<and>
     s' = (if layer_type (fst t) = VECTOR
           then updateFillAndOutlineStyle X (setVisible (snd t) (layer_visible (fst t)) s1) (snd t) (fst t)
           else setVisible (snd t) (layer_visible (fst t)) s1)"
  using assms by (cases "addLayers s (snd t) ids") (auto simp: addAndUpdate_def Let_def)

lemma addAndUpdate_Inl:
  "addAndUpdate X ids s t = Inl e \<longleftrightarrow> addLayers s (snd t) ids = Inl e"
  by (cases "addLayers s (snd t) ids") (auto simp: addAndUpdate_def Let_def)

lemma addAndUpdate_trace:
  assumes "addAndUpdate X ids s t = Inr s'"
  shows "trace s' =
     trace s @ (if layer_type (fst t) = VECTOR
                then [GetOlLayerStyle (layer_style (fst t)) (layer_temporary (fst t))] else [])"
proof -
  from addAndUpdate_Inr [OF assms] obtain s1 where
    a: "addLayers s (snd t) ids = Inr s1" and
    s': "s' = (if layer_type (fst t) = VECTOR
           then updateFillAndOutlineStyle X (setVisible (snd t) (layer_visible (fst t)) s1) (snd t) (fst t)
           else setVisible (snd t) (layer_visible (fst t)) s1)"
    by blast
  from addLayers_frame [OF a] have "trace s1 = trace s" by simp
  then show ?thesis
    by (simp add: s' updateFillAndOutlineStyle_frame setVisible_frame)
qed

lemma addAndUpdate_style:
  assumes "addAndUpdate X ids s t = Inr s'" and "layer_type (fst t) \<noteq> VECTOR \<or> q \<noteq> snd t"
  shows "ol_style (objs s' ! q) = ol_style (objs s ! q)"
proof -
  from addAndUpdate_Inr [OF assms(1)] obtain s1 where
    a: "addLayers s (snd t) ids = Inr s1" and
    s': "s' = (if layer_type (fst t) = VECTOR
           then updateFillAndOutlineStyle X (setVisible (snd t) (layer_visible (fst t)) s1) (snd t) (fst t)
           else setVisible (snd t) (layer_visible (fst t)) s1)"
    by blast
  from addLayers_frame [OF a] have "objs s1 = objs s" by simp
  then have "ol_style (objs (setVisible (snd t) (layer_visible (fst t)) s1) ! q) = ol_style (objs s ! q)"
    by (simp add: setVisible_def upd_nth_field)
  then show ?thesis
    using assms(2) by (auto simp: s' updateFillAndOutlineStyle_fields)
qed

lemma forEach_addAndUpdate_trace:
  "forEach (addAndUpdate X ids) s ps = Inr s' \<Longrightarrow>
   trace s' =
     trace s @ map (\<lambda>t. GetOlLayerStyle (layer_style (fst t)) (layer_temporary (fst t)))
                 (filter (\<lambda>t. layer_type (fst t) = VECTOR) ps)"
proof (induction ps arbitrary: s)
  case Nil
  then show ?case by simp
next
  case (Cons t ps)
  from Cons.prems obtain s1 where
    1: "addAndUpdate X ids s t = Inr s1" and 2: "forEach (addAndUpdate X ids) s1 ps = Inr s'"
    by (auto split: sum.splits)
  from Cons.IH [OF 2] addAndUpdate_trace [OF 1] show ?case by simp
qed

lemma forEach_addAndUpdate_style:
  "forEach (addAndUpdate X ids) s ps = Inr s' \<Longrightarrow>
   \<forall>t \<in> set ps. layer_type (fst t) = VECTOR \<longrightarrow> snd t \<noteq> q \<Longrightarrow>
   ol_style (objs s' ! q) = ol_style (objs s ! q)"
proof (induction ps arbitrary: s)
  case Nil
  then show ?case by simp
next
  case (Cons t ps)
  from Cons.prems(1) obtain s1 where
    1: "addAndUpdate X ids s t = Inr s1" and 2: "forEach (addAndUpdate X ids) s1 ps = Inr s'"
    by (auto split: sum.splits)
  have "ol_style (objs s1 ! q) = ol_style (objs s ! q)"
    using Cons.prems(2) by (intro addAndUpdate_style [OF 1]) auto
  moreover have "ol_style (objs s' ! q) = ol_style (objs s1 ! q)"
    using Cons.prems(2) by (intro Cons.IH [OF 2]) simp
  ultimately show ?case by simp
qed

text \<open>
  C9. The add-and-update loop of a pass calls the style resolver once for each
  VECTOR layer, in order, and for no other layer. A layer that is not VECTOR (TILE,
  GEOHASH_GRID) causes no resolver call and changes the style of no object, whatever
  its style descriptor: its step is the addition test followed by \<open>setVisible\<close> and
  nothing else. The style of an object changes only if the object is paired with a
  VECTOR layer. A step throws only where \<open>addLayers\<close> throws, before any resolver call.
\<close>

theorem style_gating:
  "(forEach (addAndUpdate X ids) s ps = Inr s' \<longrightarrow>
      trace s' =
        trace s @ map (\<lambda>t. GetOlLayerStyle (layer_style (fst t)) (layer_temporary (fst t)))
                    (filter (\<lambda>t. layer_type (fst t) = VECTOR) ps) \<and>
      ((\<forall>t \<in> set ps. layer_type (fst t) = VECTOR \<longrightarrow> snd t \<noteq> q) \<longrightarrow>
         ol_style (objs s' ! q) = ol_style (objs s ! q))) \<and>
   (layer_type layer \<noteq> VECTOR \<longrightarrow>
      addAndUpdate X ids s (layer, olLayer) =
        map_sum id (setVisible olLayer (layer_visible layer)) (addLayers s olLayer ids) \<and>
      (\<forall>s1. addAndUpdate X ids s (layer, olLayer) = Inr s1 \<longrightarrow>
         trace s1 = trace s \<and> (\<forall>q. ol_style (objs s1 ! q) = ol_style (objs s ! q)))) \<and>
   (addAndUpdate X ids s (layer, olLayer) = Inl e \<longleftrightarrow> addLayers s olLayer ids = Inl e)"
proof (intro conjI impI allI)
  assume "forEach (addAndUpdate X ids) s ps = Inr s'"
  then show "trace s' =
        trace s @ map (\<lambda>t. GetOlLayerStyle (layer_style (fst t)) (layer_temporary (fst t)))
                    (filter (\<lambda>t. layer_type (fst t) = VECTOR) ps)"
    by (rule forEach_addAndUpdate_trace)
next
  assume "forEach (addAndUpdate X ids) s ps = Inr s'"
    and "\<forall>t \<in> set ps. layer_type (fst t) = VECTOR \<longrightarrow> snd t \<noteq> q"
  then show "ol_style (objs s' ! q) = ol_style (objs s ! q)"
    by (rule forEach_addAndUpdate_style)
next
  assume "layer_type layer \<noteq> VECTOR"
  then show "addAndUpdate X ids s (layer, olLayer) =
        map_sum id (setVisible olLayer (layer_visible layer)) (addLayers s olLayer ids)"
    by (cases "addLayers s olLayer ids") (simp_all add: addAndUpdate_def Let_def)
next
  fix s1
  assume nv: "layer_type layer \<noteq> VECTOR" and r: "addAndUpdate X ids s (layer, olLayer) = Inr s1"
  from addAndUpdate_trace [OF r] nv show "trace s1 = trace s" by simp
next
  fix s1 q
  assume nv: "layer_type layer \<noteq> VECTOR" and r: "addAndUpdate X ids s (layer, olLayer) = Inr s1"
  show "ol_style (objs s1 ! q) = ol_style (objs s ! q)"
    using nv by (intro addAndUpdate_style [OF r]) simp
next
  show "(addAndUpdate X ids s (layer, olLayer) = Inl e) = (addLayers s olLayer ids = Inl e)"
    by (simp add: addAndUpdate_Inl)
qed

theorem style_gating_witness:
  "\<exists>s'. forEach (addAndUpdate example_externals [Tag (IdStr ''a''), Tag (IdStr ''b'')])
            (example_map [IdStr ''a'', IdStr ''b''])
            [(example_layer (IdStr ''a'') TILE, 0), (example_layer (IdStr ''b'') VECTOR, 1)] = Inr s' \<and>
         trace s' = [GetOlLayerStyle ''red'' False] \<and> ol_style (objs s' ! 0) = None"
proof -
  let ?ids = "[Tag (IdStr ''a''), Tag (IdStr ''b'')]"
  let ?ps = "[(example_layer (IdStr ''a'') TILE, 0::nat), (example_layer (IdStr ''b'') VECTOR, 1)]"
  let ?s = "example_map [IdStr ''a'', IdStr ''b'']"
  have "\<not> isl (forEach (addAndUpdate example_externals ?ids) ?s ?ps)"
    by code_simp
  then obtain s' where run: "forEach (addAndUpdate example_externals ?ids) ?s ?ps = Inr s'"
    by (cases "forEach (addAndUpdate example_externals ?ids) ?s ?ps") auto
  have only: "\<forall>t \<in> set ?ps. layer_type (fst t) = VECTOR \<longrightarrow> snd t \<noteq> 0"
    by (simp add: example_layer_def)
  note g = style_gating [of example_externals ?ids ?s ?ps s' 0]
  from g run have "trace s' =
      trace ?s @ map (\<lambda>t. GetOlLayerStyle (layer_style (fst t)) (layer_temporary (fst t)))
                 (filter (\<lambda>t. layer_type (fst t) = VECTOR) ?ps)"
    by blast
  then have a: "trace s' = [GetOlLayerStyle ''red'' False]"
    by (simp add: example_layer_def example_map_def)
  from g run only have "ol_style (objs s' ! 0) = ol_style (objs ?s ! 0)"
    by blast
  then have b: "ol_style (objs s' ! 0) = None"
    by (simp add: example_map_def example_object_def)
  from run a b show ?thesis by blast
qed

section \<open>The membership tests\<close>

lemma find_eq: "find (\<lambda>x. x = a) xs = (if a \<in> set xs then Some a else None)"
  by (induction xs) auto

lemma find_eq_Some: "find (\<lambda>x. Some x = Some a) xs = (if a \<in> set xs then Some a else None)"
  by (induction xs) auto

lemma Tag_in_getLayersIds:
  "Tag j \<in> set (getLayersIds s ls) \<longleftrightarrow> truthy j \<and> Some j \<in> get_id s ` set ls"
  by (induction ls) (auto simp: getLayersIds_def split: option.splits if_splits)

lemma addLayers_test:
  "get_id s r = Some i \<Longrightarrow>
   addLayers s r ids = (if Tag i \<in> set ids \<and> truthy i then Inr s else addLayer s r)"
  by (simp add: addLayers_def find_eq)

lemma layersToRemove_test:
  "idx < length (layers s) \<Longrightarrow> get_id s (layers s ! idx) = Some i \<Longrightarrow>
   idx \<in> set (layersToRemove s updatedLayersIds) \<longleftrightarrow> \<not> (i \<in> set updatedLayersIds \<and> truthy i)"
  by (simp add: layersToRemove_def find_eq)

text \<open>
  C10, as the code has it. The two membership tests negate the value returned by
  \<open>find\<close>, and \<open>getLayersIds\<close> replaces a falsy id by a fresh array. So for an object
  whose id is falsy (\<open>0\<close>, the empty string, \<open>false\<close>) \<open>addLayers\<close> calls
  \<open>map.addLayer\<close> whatever the snapshot of ids holds, and \<open>removeLayers\<close> schedules
  every position that holds it, whatever the desired ids are. The call of
  \<open>map.addLayer\<close> appends an object the collection does not hold; for one it holds
  already the collection throws, so no second entry arises. For a truthy id the same
  tests are exact: the object is appended only if no object of the collection
  carries its id, and a position is scheduled only if its id is not desired.
\<close>

theorem falsy_id_membership_tests:
  assumes "get_id s r = Some i"
  shows "(\<not> truthy i \<longrightarrow>
            getLayersIds s [r] = [FreshArray] \<and>
            addLayers s r currentLayersIds =
              (if r \<in> set (layers s) then Inl AssertionError
               else Inr (s\<lparr>layers := layers s @ [r]\<rparr>)) \<and>
            (\<forall>idx < length (layers s). layers s ! idx = r \<longrightarrow>
               idx \<in> set (layersToRemove s updatedLayersIds))) \<and>
         (truthy i \<longrightarrow>
            addLayers s r (getLayersIds s (layers s)) =
              (if Some i \<in> get_id s ` set (layers s) then Inr s
               else Inr (s\<lparr>layers := layers s @ [r]\<rparr>)) \<and>
            (\<forall>idx < length (layers s). layers s ! idx = r \<longrightarrow>
               (idx \<in> set (layersToRemove s updatedLayersIds) \<longleftrightarrow>
                i \<notin> set updatedLayersIds)))"
proof (intro conjI impI allI)
  assume "\<not> truthy i"
  with assms show "getLayersIds s [r] = [FreshArray]"
    by (simp add: getLayersIds_def)
next
  assume "\<not> truthy i"
  with assms show "addLayers s r currentLayersIds =
      (if r \<in> set (layers s) then Inl AssertionError else Inr (s\<lparr>layers := layers s @ [r]\<rparr>))"
    by (simp add: addLayers_test addLayer_def)
next
  fix idx
  assume "\<not> truthy i" "idx < length (layers s)" "layers s ! idx = r"
  with assms show "idx \<in> set (layersToRemove s updatedLayersIds)"
    by (simp add: layersToRemove_test)
next
  assume t: "truthy i"
  have "Some i \<notin> get_id s ` set (layers s) \<Longrightarrow> r \<notin> set (layers s)"
    using assms by (metis imageI)
  with assms t show "addLayers s r (getLayersIds s (layers s)) =
      (if Some i \<in> get_id s ` set (layers s) then Inr s else Inr (s\<lparr>layers := layers s @ [r]\<rparr>))"
    by (simp add: addLayers_test Tag_in_getLayersIds addLayer_def)
next
  fix idx
  assume "truthy i" "idx < length (layers s)" "layers s ! idx = r"
  with assms show "(idx \<in> set (layersToRemove s updatedLayersIds)) =
      (i \<notin> set updatedLayersIds)"
    by (simp add: layersToRemove_test)
qed

theorem falsy_id_membership_tests_witness:
  "addLayers (example_map [IdNum 0]) 0 (getLayersIds (example_map [IdNum 0]) [0]) =
     Inl AssertionError \<and>
   0 \<in> set (layersToRemove (example_map [IdNum 0]) [IdNum 0]) \<and>
   addLayers (example_map [IdStr ''a'']) 0 (getLayersIds (example_map [IdStr ''a'']) [0]) =
     Inr (example_map [IdStr ''a'']) \<and>
   0 \<notin> set (layersToRemove (example_map [IdStr ''a'']) [IdStr ''a''])"
proof -
  let ?z = "example_map [IdNum 0]"
  let ?a = "example_map [IdStr ''a'']"
  have idz: "get_id ?z 0 = Some (IdNum 0)" and ida: "get_id ?a 0 = Some (IdStr ''a'')"
    by (simp_all add: get_id_def example_map_def example_object_def)
  have lz: "layers ?z = [0]" and la: "layers ?a = [0]"
    by (simp_all add: example_map_def)
  have fz: "\<not> truthy (IdNum 0)" and ta: "truthy (IdStr ''a'')"
    by simp_all
  note z = falsy_id_membership_tests [OF idz, of "getLayersIds ?z [0]" "[IdNum 0]"]
  note a = falsy_id_membership_tests [OF ida, of "getLayersIds ?a [0]" "[IdStr ''a'']"]
  from z fz have "addLayers ?z 0 (getLayersIds ?z [0]) =
      (if 0 \<in> set (layers ?z) then Inl AssertionError else Inr (?z\<lparr>layers := layers ?z @ [0]\<rparr>))"
    by blast
  then have 1: "addLayers ?z 0 (getLayersIds ?z [0]) = Inl AssertionError"
    by (simp add: lz)
  from z fz have "\<forall>idx < length (layers ?z). layers ?z ! idx = 0 \<longrightarrow>
      idx \<in> set (layersToRemove ?z [IdNum 0])"
    by blast
  then have 2: "0 \<in> set (layersToRemove ?z [IdNum 0])"
    by (simp add: lz)
  from a ta have "addLayers ?a 0 (getLayersIds ?a (layers ?a)) =
      (if Some (IdStr ''a'') \<in> get_id ?a ` set (layers ?a) then Inr ?a
       else Inr (?a\<lparr>layers := layers ?a @ [0]\<rparr>))"
    by blast
  then have 3: "addLayers ?a 0 (getLayersIds ?a [0]) = Inr ?a"
    by (simp add: la ida)
  from a ta have "\<forall>idx < length (layers ?a). layers ?a ! idx = 0 \<longrightarrow>
      (idx \<in> set (layersToRemove ?a [IdStr ''a'']) \<longleftrightarrow> IdStr ''a'' \<notin> set [IdStr ''a''])"
    by blast
  then have 4: "0 \<notin> set (layersToRemove ?a [IdStr ''a''])"
    by (simp add: la)
  from 1 2 3 4 show ?thesis by (intro conjI)
qed

text \<open>
  A layer with the id \<open>0\<close> whose object the map already holds: the object is found by
  the diff and the addition test passes it to \<open>map.addLayer\<close> again, which throws.
  The collection never holds the object twice, and the pass does not return.
\<close>

theorem falsy_id_is_not_duplicated:
  "addLayers (example_map [IdNum 0]) 0 (getLayersIds (example_map [IdNum 0]) [0]) =
     Inl AssertionError \<and>
   syncOLState example_externals 0 (example_map [IdNum 0]) example_constants
     [example_layer (IdNum 0) TILE] = Some (Inl AssertionError)"
  by code_simp

section \<open>A full pass\<close>

lemma syncOLState_unfold:
  assumes "syncLayerInitialization X (syncOLMap X s C) L = Inr (olMap, tuples)"
    and "forEach (addAndUpdate X (getLayersIds olMap (layers olMap))) olMap tuples = Inr s1"
    and "removeLayers s1 (map (\<lambda>t. layer_id (fst t)) tuples) = Inr s2"
  shows "syncOLState X fuel s C L =
         updateMapLayerOrder fuel s2 (getLayersIds s2 (layers s2)) (map (\<lambda>t. layer_id (fst t)) tuples)"
  using assms by (simp add: syncOLState_def Let_def)

lemma syncOLState_returned:
  assumes "syncOLState X fuel s C L = Some (Inr s')"
  shows "\<exists>olMap tuples s1 s2.
     syncLayerInitialization X (syncOLMap X s C) L = Inr (olMap, tuples) \<and>
     forEach (addAndUpdate X (getLayersIds olMap (layers olMap))) olMap tuples = Inr s1 \<and>
     removeLayers s1 (map (\<lambda>t. layer_id (fst t)) tuples) = Inr s2 \<and>
     updateMapLayerOrder fuel s2 (getLayersIds s2 (layers s2)) (map (\<lambda>t. layer_id (fst t)) tuples) =
       Some (Inr s')"
proof -
  from assms obtain olMap tuples where
    diff: "syncLayerInitialization X (syncOLMap X s C) L = Inr (olMap, tuples)"
    by (cases "syncLayerInitialization X (syncOLMap X s C) L")
       (auto simp: syncOLState_def Let_def)
  from assms diff obtain s1 where
    adds: "forEach (addAndUpdate X (getLayersIds olMap (layers olMap))) olMap tuples = Inr s1"
    by (cases "forEach (addAndUpdate X (getLayersIds olMap (layers olMap))) olMap tuples")
       (auto simp: syncOLState_def Let_def)
  from assms diff adds obtain s2 where
    rem: "removeLayers s1 (map (\<lambda>t. layer_id (fst t)) tuples) = Inr s2"
    by (cases "removeLayers s1 (map (\<lambda>t. layer_id (fst t)) tuples)")
       (auto simp: syncOLState_def Let_def)
  from syncOLState_unfold [OF diff adds rem, of fuel] assms diff adds rem show ?thesis
    by simp
qed

text \<open>
  C1 fails on the code. \<open>removeLayers\<close> first collects the positions to remove and
  then removes them one by one, in ascending order, without accounting for the shift
  each removal causes. With the collection \<open>[a, b, c]\<close> and the desired list \<open>[c]\<close> it
  schedules positions 0 and 1, removes \<open>a\<close>, and then removes what is now at
  position 1, which is \<open>c\<close>: the collection is left as \<open>[b]\<close>, and the following
  \<open>updateMapLayerOrder\<close> never returns. With the collection \<open>[x, a, y, z]\<close> and the
  desired list \<open>[a]\<close> it schedules positions 0, 2 and 3; after two removals the
  collection is \<open>[a, y]\<close>, has no position 3, and the pass ends in a \<open>TypeError\<close>.
\<close>

theorem removeLayers_shifted_positions:
  "layersToRemove (example_map [IdStr ''a'', IdStr ''b'', IdStr ''c'']) [IdStr ''c''] = [0, 1] \<and>
   map_sum id layer_ids
     (removeLayers (example_map [IdStr ''a'', IdStr ''b'', IdStr ''c'']) [IdStr ''c'']) =
     Inr [Some (IdStr ''b'')] \<and>
   (\<forall>fuel. syncOLState example_externals fuel
             (example_map [IdStr ''a'', IdStr ''b'', IdStr ''c''])
             example_constants [example_layer (IdStr ''c'') TILE] = None) \<and>
   layersToRemove (example_map [IdStr ''x'', IdStr ''a'', IdStr ''y'', IdStr ''z''])
     [IdStr ''a''] = [0, 2, 3] \<and>
   syncOLState example_externals 0
     (example_map [IdStr ''x'', IdStr ''a'', IdStr ''y'', IdStr ''z''])
     example_constants [example_layer (IdStr ''a'') TILE] = Some (Inl TypeError)"
proof (intro conjI allI)
  show "layersToRemove (example_map [IdStr ''a'', IdStr ''b'', IdStr ''c'']) [IdStr ''c''] = [0, 1]"
    by code_simp
  show "map_sum id layer_ids
     (removeLayers (example_map [IdStr ''a'', IdStr ''b'', IdStr ''c'']) [IdStr ''c'']) =
     Inr [Some (IdStr ''b'')]"
    by code_simp
  show "layersToRemove (example_map [IdStr ''x'', IdStr ''a'', IdStr ''y'', IdStr ''z''])
     [IdStr ''a''] = [0, 2, 3]"
    by code_simp
  show "syncOLState example_externals 0
     (example_map [IdStr ''x'', IdStr ''a'', IdStr ''y'', IdStr ''z''])
     example_constants [example_layer (IdStr ''a'') TILE] = Some (Inl TypeError)"
    by code_simp
next
  fix fuel
  let ?s = "example_map [IdStr ''a'', IdStr ''b'', IdStr ''c'']"
  let ?L = "[example_layer (IdStr ''c'') TILE]"
  let ?olMap = "syncOLMap example_externals ?s example_constants"
  let ?tuples = "[(example_layer (IdStr ''c'') TILE, 2::nat)]"
  let ?adds = "forEach (addAndUpdate example_externals (getLayersIds ?olMap (layers ?olMap)))
                ?olMap ?tuples"
  let ?s1 = "projr ?adds"
  let ?rem = "removeLayers ?s1 (map (\<lambda>t. layer_id (fst t)) ?tuples)"
  let ?s2 = "projr ?rem"
  have diff: "syncLayerInitialization example_externals ?olMap ?L = Inr (?olMap, ?tuples)"
    by code_simp
  have "\<not> isl ?adds" by code_simp
  then have adds: "?adds = Inr ?s1" by simp
  have "\<not> isl ?rem" by code_simp
  then have rem: "?rem = Inr ?s2" by simp
  have new: "map (\<lambda>t. layer_id (fst t)) ?tuples = [IdStr ''c'']"
    by (simp add: example_layer_def)
  have lay: "layers ?s2 = [1]" by code_simp
  have ids: "getLayersIds ?s2 (layers ?s2) = [Tag (IdStr ''b'')]" by code_simp
  have "syncOLState example_externals fuel ?s example_constants ?L =
        updateMapLayerOrder fuel ?s2 (getLayersIds ?s2 (layers ?s2)) [IdStr ''c'']"
    using syncOLState_unfold [OF diff adds rem, of fuel] unfolding new .
  also have "\<dots> = None"
  proof (rule updateMapLayerOrder_unbounded)
    show "length [IdStr ''c''] = length (layers ?s2)" unfolding lay by simp
    show "mset (getLayersIds ?s2 (layers ?s2)) \<noteq> mset (map Tag [IdStr ''c''])"
      unfolding ids by simp
  qed
  finally show "syncOLState example_externals fuel ?s example_constants ?L = None" .
qed

section \<open>A pass over layers the map already holds\<close>

lemma syncLayerInitialization_map_fst:
  "syncLayerInitialization X s layerList = Inr (s', tuples) \<Longrightarrow> map fst tuples = layerList"
proof (induction layerList arbitrary: s s' tuples)
  case Nil
  then show ?case by simp
next
  case (Cons layer layerList)
  from Cons.prems obtain s1 rest olLayer where
    "syncLayerInitialization X s1 layerList = Inr (s', rest)" "tuples = (layer, olLayer) # rest"
    by (auto split: sum.splits option.splits)
  with Cons.IH show ?case by simp
qed

lemma updateMapLayerOrder_returned:
  "updateMapLayerOrder fuel s (getLayersIds s (layers s)) new = Some (Inr s') \<Longrightarrow>
   firstMismatch (getLayersIds s' (layers s')) new = None"
proof (induction fuel arbitrary: s)
  case 0
  then show ?case
    by (subst (asm) updateMapLayerOrder.simps) (auto split: option.splits)
next
  case (Suc fuel)
  show ?case
  proof (cases "firstMismatch (getLayersIds s (layers s)) new")
    case None
    with Suc.prems have "s' = s" by (subst (asm) updateMapLayerOrder.simps) simp
    with None show ?thesis by simp
  next
    case (Some idx)
    show ?thesis
    proof (cases "relocate s (getLayersIds s (layers s)) new idx")
      case (Inl e)
      with Some Suc.prems show ?thesis by (subst (asm) updateMapLayerOrder.simps) simp
    next
      case (Inr s1)
      with Some Suc.prems
      have "updateMapLayerOrder fuel s1 (getLayersIds s1 (layers s1)) new = Some (Inr s')"
        by (subst (asm) updateMapLayerOrder.simps) simp
      then show ?thesis by (rule Suc.IH)
    qed
  qed
qed

lemma matching_ids_truthy:
  assumes "firstMismatch (getLayersIds s ls) new = None"
  shows "\<forall>i \<in> set new. truthy i"
proof
  fix i assume "i \<in> set new"
  then obtain k where k: "k < length new" "new ! k = i" by (metis in_set_conv_nth)
  from assms have "nth_opt (getLayersIds s ls) k = Some (Tag (new ! k))"
    using k(1) by (simp add: firstMismatch_None)
  then have "k < length (getLayersIds s ls)" "getLayersIds s ls ! k = Tag i"
    using k(2) by (auto simp: nth_opt_def split: if_splits)
  then have "Tag i \<in> set (getLayersIds s ls)" by (metis nth_mem)
  then show "truthy i" by (simp add: Tag_in_getLayersIds)
qed

lemma syncOLState_returned_truthy:
  assumes "syncOLState X fuel s C L = Some (Inr s')"
  shows "\<forall>l \<in> set L. truthy (layer_id l)"
proof -
  from syncOLState_returned [OF assms] obtain olMap tuples s1 s2 where
    diff: "syncLayerInitialization X (syncOLMap X s C) L = Inr (olMap, tuples)" and
    run: "updateMapLayerOrder fuel s2 (getLayersIds s2 (layers s2))
            (map (\<lambda>t. layer_id (fst t)) tuples) = Some (Inr s')"
    by blast
  let ?new = "map (\<lambda>t. layer_id (fst t)) tuples"
  from matching_ids_truthy [OF updateMapLayerOrder_returned [OF run]]
  have "\<forall>i \<in> set ?new. truthy i" .
  moreover have "?new = map layer_id (map fst tuples)" by (simp add: comp_def)
  then have "?new = map layer_id L"
    using syncLayerInitialization_map_fst [OF diff] by simp
  ultimately show ?thesis by (metis (no_types, lifting) image_eqI list.set_map)
qed

lemma syncLayerInitialization_all_found:
  "\<forall>l \<in> set L. find (\<lambda>r. get_id s r = Some (layer_id l)) (layers s) \<noteq> None \<Longrightarrow>
   syncLayerInitialization X s L =
     Inr (s, map (\<lambda>l. (l, the (find (\<lambda>r. get_id s r = Some (layer_id l)) (layers s)))) L)"
  by (induction L) auto



lemma get_id_setVisible: "get_id (setVisible r v s) q = get_id s q"
  by (simp add: get_id_def setVisible_fields)

lemma get_id_updateFillAndOutlineStyle:
  "get_id (updateFillAndOutlineStyle X s r layer) q = get_id s q"
  by (simp add: get_id_def updateFillAndOutlineStyle_fields)

lemma addAndUpdate_present:
  assumes "get_id s (snd t) = Some i" "truthy i" "Tag i \<in> set ids"
  shows "\<exists>s'. addAndUpdate X ids s t = Inr s' \<and> layers s' = layers s \<and>
              get_id s' = get_id s \<and> view s' = view s"
proof -
  have a: "addLayers s (snd t) ids = Inr s" using assms by (simp add: addLayers_test)
  let ?s2 = "setVisible (snd t) (layer_visible (fst t)) s"
  let ?s' = "if layer_type (fst t) = VECTOR
             then updateFillAndOutlineStyle X ?s2 (snd t) (fst t) else ?s2"
  have "addAndUpdate X ids s t = Inr ?s'" by (simp add: addAndUpdate_def Let_def a)
  moreover have "layers ?s' = layers s" "view ?s' = view s"
    by (simp_all add: updateFillAndOutlineStyle_frame setVisible_frame)
  moreover have "get_id ?s' = get_id s"
    by (rule ext) (simp add: get_id_updateFillAndOutlineStyle get_id_setVisible)
  ultimately show ?thesis by blast
qed

lemma forEach_addAndUpdate_held:
  "\<forall>t \<in> set tuples. \<exists>i. get_id s (snd t) = Some i \<and> truthy i \<and> Tag i \<in> set ids \<Longrightarrow>
   \<exists>s'. forEach (addAndUpdate X ids) s tuples = Inr s' \<and> layers s' = layers s \<and>
        get_id s' = get_id s \<and> view s' = view s"
proof (induction tuples arbitrary: s)
  case Nil
  then show ?case by simp
next
  case (Cons t tuples)
  from Cons.prems obtain i where i: "get_id s (snd t) = Some i" "truthy i" "Tag i \<in> set ids"
    by auto
  from addAndUpdate_present [OF i] obtain s1 where
    s1: "addAndUpdate X ids s t = Inr s1" "layers s1 = layers s" "get_id s1 = get_id s"
      "view s1 = view s"
    by blast
  have "\<forall>t \<in> set tuples. \<exists>i. get_id s1 (snd t) = Some i \<and> truthy i \<and> Tag i \<in> set ids"
    using Cons.prems by (simp add: s1(3))
  from Cons.IH [OF this] obtain s' where
    "forEach (addAndUpdate X ids) s1 tuples = Inr s'" "layers s' = layers s1"
    "get_id s' = get_id s1" "view s' = view s1"
    by blast
  with s1 show ?case by simp
qed

lemma removeLayers_nothing:
  assumes "\<forall>idx < length (layers s). \<exists>i. get_id s (layers s ! idx) = Some i \<and> i \<in> set new \<and> truthy i"
  shows "removeLayers s new = Inr s"
proof -
  have "layersToRemove s new = filter (\<lambda>idx. False) [0..<length (layers s)]"
    unfolding layersToRemove_def
  proof (rule filter_cong [OF refl])
    fix idx assume "idx \<in> set [0..<length (layers s)]"
    then have lt: "idx < length (layers s)" by simp
    with assms obtain i where i: "get_id s (layers s ! idx) = Some i" "i \<in> set new" "truthy i"
      by blast
    have "idx \<notin> set (layersToRemove s new)"
      using i lt by (simp add: layersToRemove_test)
    then show "(\<not> (case find (\<lambda>i. Some i = get_id s (layers s ! idx)) new of
                     None \<Rightarrow> False | Some i \<Rightarrow> truthy i)) = False"
      using lt by (simp add: layersToRemove_def)
  qed
  then have "layersToRemove s new = []" by simp
  then show ?thesis by (simp add: removeLayers_def)
qed

lemma Some_rearrangement:
  assumes "mset xs = mset (map Some new)"
  shows "\<exists>cur. xs = map Some cur \<and> mset cur = mset new"
proof -
  from assms have "set xs = Some ` set new" by (metis mset_eq_setD set_map)
  then have "\<forall>y \<in> set xs. \<exists>x. y = Some x" by auto
  then obtain cur where cur: "xs = map Some cur" by (metis ex_map_conv)
  with assms have "image_mset Some (mset cur) = image_mset Some (mset new)" by simp
  then have "mset cur = mset new" by (rule multiset.inj_map_strong [rotated]) simp
  with cur show ?thesis by blast
qed

lemma getLayersIds_truthy:
  "map (get_id s) ls = map Some cur \<Longrightarrow> \<forall>i \<in> set cur. truthy i \<Longrightarrow>
   getLayersIds s ls = map Tag cur"
proof (induction ls arbitrary: cur)
  case Nil
  then show ?case by (simp add: getLayersIds_def)
next
  case (Cons r ls)
  then obtain i rest where cur: "cur = i # rest" by (cases cur) auto
  with Cons.prems have "get_id s r = Some i" "truthy i" "map (get_id s) ls = map Some rest"
      "\<forall>i \<in> set rest. truthy i"
    by auto
  with Cons.IH [of rest] cur show ?case by (simp add: getLayersIds_def)
qed

lemma syncOLMap_frame:
  "objs (syncOLMap X s mc) = objs s" "layers (syncOLMap X s mc) = layers s"
  by (cases "mc_zoom mc"; cases "mc_center mc";
      simp add: syncOLMap_def setZoom_def setCenter_def Let_def)+

lemma held_layers_pass:
  assumes truthy: "\<forall>i \<in> set new. truthy i"
    and new: "new = map layer_id L"
    and held: "mset (layer_ids s) = mset (map Some new)"
    and dist: "distinct new"
    and fuel: "2 ^ (length new - 1) - 1 \<le> fuel"
  shows "\<exists>s'. syncOLState X fuel s C L = Some (Inr s') \<and> layer_ids s' = map Some new"
proof -
  let ?a = "syncOLMap X s C"
  have ga: "get_id ?a = get_id s" by (rule ext) (simp add: get_id_def syncOLMap_frame)
  have la: "layers ?a = layers s" by (rule syncOLMap_frame)
  from held have "mset (map (get_id ?a) (layers ?a)) = mset (map Some new)"
    by (simp add: layer_ids_def ga la)
  from Some_rearrangement [OF this] obtain cur where
    cur: "map (get_id ?a) (layers ?a) = map Some cur" and perm: "mset cur = mset new"
    by blast
  have setcur: "set cur = set new" using perm by (rule mset_eq_setD)
  have lencur: "length cur = length (layers ?a)" using cur by (metis length_map)
  have tcur: "\<forall>i \<in> set cur. truthy i" using truthy setcur by simp
  have ids: "getLayersIds ?a (layers ?a) = map Tag cur"
    using cur tcur by (rule getLayersIds_truthy)
  let ?look = "\<lambda>l. find (\<lambda>r. get_id ?a r = Some (layer_id l)) (layers ?a)"
  have found: "\<forall>l \<in> set L. ?look l \<noteq> None"
  proof
    fix l assume "l \<in> set L"
    then have "layer_id l \<in> set cur" using new setcur by simp
    then have "Some (layer_id l) \<in> set (map (get_id ?a) (layers ?a))" using cur by simp
    then obtain r where "r \<in> set (layers ?a)" "get_id ?a r = Some (layer_id l)" by auto
    then show "?look l \<noteq> None" by (auto simp: find_None_iff)
  qed
  let ?tuples = "map (\<lambda>l. (l, the (?look l))) L"
  have diff: "syncLayerInitialization X ?a L = Inr (?a, ?tuples)"
    using found by (rule syncLayerInitialization_all_found)
  have tnew: "map (\<lambda>t. layer_id (fst t)) ?tuples = new" by (simp add: new comp_def)
  let ?ids = "getLayersIds ?a (layers ?a)"
  have paired: "\<forall>t \<in> set ?tuples. \<exists>i. get_id ?a (snd t) = Some i \<and> truthy i \<and> Tag i \<in> set ?ids"
  proof
    fix t assume "t \<in> set ?tuples"
    then obtain l where l: "l \<in> set L" "t = (l, the (?look l))" by auto
    with found obtain r where r: "?look l = Some r" by auto
    then have "get_id ?a r = Some (layer_id l)" by (auto simp: find_Some_iff)
    moreover have "layer_id l \<in> set new" using l new by simp
    moreover then have "Tag (layer_id l) \<in> set ?ids" using ids setcur by simp
    ultimately show "\<exists>i. get_id ?a (snd t) = Some i \<and> truthy i \<and> Tag i \<in> set ?ids"
      using truthy l r by auto
  qed
  from forEach_addAndUpdate_held [OF paired] obtain s1 where
    adds: "forEach (addAndUpdate X ?ids) ?a ?tuples = Inr s1" and l1: "layers s1 = layers ?a"
    and g1: "get_id s1 = get_id ?a"
    by blast
  have cur1: "map (get_id s1) (layers s1) = map Some cur"
    using cur by (simp add: l1 g1)
  have keep: "removeLayers s1 new = Inr s1"
  proof (rule removeLayers_nothing, intro allI impI)
    fix idx assume "idx < length (layers s1)"
    then have lt: "idx < length cur" using l1 lencur by simp
    have "map (get_id s1) (layers s1) ! idx = map Some cur ! idx" using cur1 by simp
    then have "get_id s1 (layers s1 ! idx) = Some (cur ! idx)"
      using lt l1 lencur by simp
    moreover have "cur ! idx \<in> set new" using lt setcur by (metis nth_mem)
    ultimately show "\<exists>i. get_id s1 (layers s1 ! idx) = Some i \<and> i \<in> set new \<and> truthy i"
      using truthy by blast
  qed
  have ids1: "getLayersIds s1 (layers s1) = map Tag cur"
    using cur1 tcur by (rule getLayersIds_truthy)
  have keep': "removeLayers s1 (map (\<lambda>t. layer_id (fst t)) ?tuples) = Inr s1"
    unfolding tnew by (rule keep)
  have "syncOLState X fuel s C L =
        updateMapLayerOrder fuel s1 (getLayersIds s1 (layers s1))
          (map (\<lambda>t. layer_id (fst t)) ?tuples)"
    by (rule syncOLState_unfold [OF diff adds keep'])
  then have run: "syncOLState X fuel s C L = updateMapLayerOrder fuel s1 (map Tag cur) new"
    unfolding tnew ids1 .
  have "2 ^ (length new - 1) \<le> Suc (potential cur new + fuel)" using fuel by simp
  from updateMapLayerOrder_rearrangement [OF ids1 perm dist this] obtain s' where
    s': "updateMapLayerOrder fuel s1 (map Tag cur) new = Some (Inr s')"
      "getLayersIds s' (layers s') = map Tag new"
    by blast
  from getLayersIds_Tags [OF s'(2)] have "layer_ids s' = map Some new"
    by (simp add: layer_ids_def)
  with run s'(1) show ?thesis by simp
qed

section \<open>Order correctness\<close>

text \<open>
  C3. Let a pass for a desired list \<open>L0\<close> have returned, and let the map now hold
  exactly one object for each id of \<open>L\<close>, where the ids of \<open>L\<close> are distinct and a
  rearrangement of the ids of \<open>L0\<close>. Then a pass for \<open>L\<close>, given \<open>2 ^ (n - 1) - 1\<close>
  relocations or more for its \<open>n\<close> layers, returns, and afterwards the ids of the
  collection are the ids of \<open>L\<close> in the order of \<open>L\<close>.
\<close>

theorem syncOLState_order:
  assumes "syncOLState X fuel0 s0 C0 L0 = Some (Inr s)"
    and "mset (map layer_id L) = mset (map layer_id L0)"
    and "mset (layer_ids s) = mset (map (\<lambda>l. Some (layer_id l)) L)"
    and "distinct (map layer_id L)"
    and "2 ^ (length L - 1) - 1 \<le> fuel"
  shows "\<exists>s'. syncOLState X fuel s C L = Some (Inr s') \<and>
              layer_ids s' = map (\<lambda>l. Some (layer_id l)) L"
proof -
  let ?new = "map layer_id L"
  from syncOLState_returned_truthy [OF assms(1)] have "\<forall>i \<in> set (map layer_id L0). truthy i"
    by simp
  moreover have "set ?new = set (map layer_id L0)" using assms(2) by (rule mset_eq_setD)
  ultimately have truthy: "\<forall>i \<in> set ?new. truthy i" by simp
  have held: "mset (layer_ids s) = mset (map Some ?new)"
    using assms(3) by (simp add: comp_def)
  have fuel: "2 ^ (length ?new - 1) - 1 \<le> fuel" using assms(5) by simp
  from held_layers_pass [OF truthy refl held assms(4) fuel, of X C] obtain s' where
    "syncOLState X fuel s C L = Some (Inr s')" "layer_ids s' = map Some ?new"
    by blast
  then show ?thesis by (auto simp: comp_def)
qed

theorem syncOLState_order_witness:
  "\<exists>s s'. syncOLState example_externals 0 (OL_MAP example_externals) example_constants
            [example_layer (IdStr ''a'') TILE, example_layer (IdStr ''b'') VECTOR,
             example_layer (IdStr ''c'') GEOHASH_GRID] = Some (Inr s) \<and>
          syncOLState example_externals 3 s example_constants
            [example_layer (IdStr ''c'') GEOHASH_GRID, example_layer (IdStr ''a'') TILE,
             example_layer (IdStr ''b'') VECTOR] = Some (Inr s') \<and>
          layer_ids s' = [Some (IdStr ''c''), Some (IdStr ''a''), Some (IdStr ''b'')]"
proof -
  let ?before = "[example_layer (IdStr ''a'') TILE, example_layer (IdStr ''b'') VECTOR,
              example_layer (IdStr ''c'') GEOHASH_GRID]"
  let ?after = "[example_layer (IdStr ''c'') GEOHASH_GRID, example_layer (IdStr ''a'') TILE,
             example_layer (IdStr ''b'') VECTOR]"
  let ?run = "syncOLState example_externals 0 (OL_MAP example_externals) example_constants ?before"
  let ?s = "projr (the ?run)"
  have "?run \<noteq> None \<and> \<not> isl (the ?run)" by code_simp
  then have prev: "?run = Some (Inr ?s)" by auto
  have perm: "mset (map layer_id ?after) = mset (map layer_id ?before)"
    by (simp add: example_layer_def add.commute)
  have held: "mset (layer_ids ?s) = mset (map (\<lambda>l. Some (layer_id l)) ?after)"
  proof -
    have ids: "layer_ids ?s = [Some (IdStr ''a''), Some (IdStr ''b''), Some (IdStr ''c'')]"
      by code_simp
    have "mset [Some (IdStr ''a''), Some (IdStr ''b''), Some (IdStr ''c'')] =
          mset (map (\<lambda>l. Some (layer_id l)) ?after)"
      by (simp add: example_layer_def)
    then show ?thesis by (simp only: ids)
  qed
  have dist: "distinct (map layer_id ?after)" by (simp add: example_layer_def)
  have fuel: "2 ^ (length ?after - 1) - 1 \<le> (3::nat)" by simp
  from syncOLState_order [OF prev perm held dist fuel, of example_constants] obtain s' where
    "syncOLState example_externals 3 ?s example_constants ?after = Some (Inr s')"
    "layer_ids s' = map (\<lambda>l. Some (layer_id l)) ?after"
    by blast
  then have "syncOLState example_externals 3 ?s example_constants ?after = Some (Inr s') \<and>
      layer_ids s' = [Some (IdStr ''c''), Some (IdStr ''a''), Some (IdStr ''b'')]"
    by (simp add: example_layer_def)
  with prev show ?thesis by blast
qed

section \<open>What a returned pass leaves behind\<close>



















section \<open>A second pass with the same inputs\<close>







section \<open>Idempotence\<close>



end
